theory Spec2Isabelle
  imports Complex_Main
begin

section \<open>The Pong game of the offline page: paddle, ball, score display, controller\<close>

text \<open>
  The TypeScript sources compute on \<^verbatim>\<open>number\<close>. The embedding reads a \<^verbatim>\<open>number\<close> that
  holds a coordinate, a velocity or a time as a \<^typ>\<open>real\<close> and the two scores, which start
  at zero and only ever receive \<^verbatim>\<open>+ 1\<close>, as \<^typ>\<open>int\<close>. Rounding, infinities and NaN
  of IEEE doubles are outside this reading; the prediction of \<^verbatim>\<open>updateAI\<close>, where they
  decide whether the loop ends, is modelled on doubles as well. Where the source divides by a field
  (\<^verbatim>\<open>bounds.height / 2\<close>), the theorems assume the field is positive, because HOL's
  \<open>x / 0 = 0\<close> is not what JavaScript computes. \<^verbatim>\<open>Math.random()\<close> is an explicit
  argument: the value drawn, in \<open>[0, 1)\<close>.

  Record fields carry the class name as a prefix (\<open>paddle_y\<close> for \<^verbatim>\<open>Paddle.y\<close>), since
  the classes share field names.
\<close>

subsection \<open>constants.ts: \<^verbatim>\<open>PONG_CONFIG\<close>\<close>

definition PADDLE_WIDTH :: real where "PADDLE_WIDTH = 10"
definition PADDLE_HEIGHT :: real where "PADDLE_HEIGHT = 40"
definition PADDLE_SPEED :: real where "PADDLE_SPEED = 5"
definition PADDLE_MARGIN :: real where "PADDLE_MARGIN = 20"
definition BALL_SIZE :: real where "BALL_SIZE = 8"
definition BALL_SPEED :: real where "BALL_SPEED = 4"
definition WINNING_SCORE :: int where "WINNING_SCORE = 11"
definition AI_REACTION_SPEED :: real where "AI_REACTION_SPEED = 0.85"
definition SCORE_DELAY :: real where "SCORE_DELAY = 1000"

subsection \<open>paddle.ts: class \<^verbatim>\<open>Paddle\<close>\<close>

record paddle =
  paddle_x :: real
  paddle_y :: real
  paddle_width :: real
  paddle_height :: real
  paddle_speed :: real
  paddle_canvasHeight :: real

text \<open>The constructor \<^verbatim>\<open>new Paddle(x, canvasHeight)\<close>.\<close>

definition newPaddle :: "real \<Rightarrow> real \<Rightarrow> paddle" where
  "newPaddle x canvasHeight =
     \<lparr> paddle_x = x,
       paddle_y = (canvasHeight - PADDLE_HEIGHT) / 2,
       paddle_width = PADDLE_WIDTH,
       paddle_height = PADDLE_HEIGHT,
       paddle_speed = PADDLE_SPEED,
       paddle_canvasHeight = canvasHeight \<rparr>"

definition moveUp :: "real \<Rightarrow> paddle \<Rightarrow> paddle" where
  "moveUp deltaTime p =
     (let movement = paddle_speed p * (deltaTime / 16.67)
      in p\<lparr>paddle_y := max 0 (paddle_y p - movement)\<rparr>)"

definition moveDown :: "real \<Rightarrow> paddle \<Rightarrow> paddle" where
  "moveDown deltaTime p =
     (let movement = paddle_speed p * (deltaTime / 16.67)
      in p\<lparr>paddle_y := min (paddle_canvasHeight p - paddle_height p) (paddle_y p + movement)\<rparr>)"

definition moveToward :: "real \<Rightarrow> real \<Rightarrow> real \<Rightarrow> paddle \<Rightarrow> paddle" where
  "moveToward targetY deltaTime reactionSpeed p =
     (let paddleCenter = paddle_y p + paddle_height p / 2;
          diff = targetY - paddleCenter;
          movement = paddle_speed p * reactionSpeed * (deltaTime / 16.67)
      in if \<bar>diff\<bar> > movement
         then (if diff > 0 then moveDown (deltaTime * reactionSpeed) p
               else moveUp (deltaTime * reactionSpeed) p)
         else p)"

definition paddle_reset :: "paddle \<Rightarrow> paddle" where
  "paddle_reset p = p\<lparr>paddle_y := (paddle_canvasHeight p - paddle_height p) / 2\<rparr>"

record bounds =
  bounds_x :: real
  bounds_y :: real
  bounds_width :: real
  bounds_height :: real

definition getBounds :: "paddle \<Rightarrow> bounds" where
  "getBounds p =
     \<lparr> bounds_x = paddle_x p,
       bounds_y = paddle_y p,
       bounds_width = paddle_width p,
       bounds_height = paddle_height p \<rparr>"

text \<open>The range \<^verbatim>\<open>[0, canvasHeight - height]\<close> that the clamps of \<^verbatim>\<open>moveUp\<close> and
  \<^verbatim>\<open>moveDown\<close> aim at.\<close>

definition inField :: "paddle \<Rightarrow> bool" where
  "inField p \<longleftrightarrow> 0 \<le> paddle_y p \<and> paddle_y p \<le> paddle_canvasHeight p - paddle_height p"

subsection \<open>ball.ts: class \<^verbatim>\<open>Ball\<close>\<close>

record ball =
  ball_x :: real
  ball_y :: real
  ball_vx :: real
  ball_vy :: real
  ball_size :: real
  ball_canvasWidth :: real
  ball_canvasHeight :: real
  ball_baseSpeed :: real

text \<open>The constructor \<^verbatim>\<open>new Ball(canvasWidth, canvasHeight)\<close>.\<close>

definition newBall :: "real \<Rightarrow> real \<Rightarrow> ball" where
  "newBall canvasWidth canvasHeight =
     \<lparr> ball_x = canvasWidth / 2 - BALL_SIZE / 2,
       ball_y = canvasHeight / 2 - BALL_SIZE / 2,
       ball_vx = 0,
       ball_vy = 0,
       ball_size = BALL_SIZE,
       ball_canvasWidth = canvasWidth,
       ball_canvasHeight = canvasHeight,
       ball_baseSpeed = BALL_SPEED \<rparr>"

text \<open>\<^verbatim>\<open>launch(towardPlayer)\<close>; \<open>rnd\<close> is the value \<^verbatim>\<open>Math.random()\<close> returns.\<close>

definition launch :: "bool \<Rightarrow> real \<Rightarrow> ball \<Rightarrow> ball" where
  "launch towardPlayer rnd b =
     (let angle = (rnd - 0.5) * pi / 2;
          direction = (if towardPlayer then - 1 else 1)
      in b\<lparr>ball_vx := cos angle * ball_baseSpeed b * direction,
            ball_vy := sin angle * ball_baseSpeed b\<rparr>)"

text \<open>The result of \<^verbatim>\<open>update\<close>: \<^verbatim>\<open>'left'\<close>, \<^verbatim>\<open>'right'\<close> or \<^verbatim>\<open>null\<close> (\<open>None\<close>).\<close>

datatype edge = Left | Right

definition update :: "real \<Rightarrow> ball \<Rightarrow> edge option \<times> ball" where
  "update deltaTime b =
     (let timeScale = deltaTime / 16.67;
          b1 = b\<lparr>ball_x := ball_x b + ball_vx b * timeScale\<rparr>;
          b2 = b1\<lparr>ball_y := ball_y b1 + ball_vy b1 * timeScale\<rparr>;
          b3 = (if ball_y b2 \<le> 0 then b2\<lparr>ball_y := 0, ball_vy := - ball_vy b2\<rparr> else b2);
          b4 = (if ball_y b3 + ball_size b3 \<ge> ball_canvasHeight b3
                then b3\<lparr>ball_y := ball_canvasHeight b3 - ball_size b3, ball_vy := - ball_vy b3\<rparr>
                else b3)
      in if ball_x b4 + ball_size b4 < 0 then (Some Left, b4)
         else if ball_x b4 > ball_canvasWidth b4 then (Some Right, b4)
         else (None, b4))"

definition checkPaddleCollision :: "ball \<Rightarrow> paddle \<Rightarrow> bool \<times> ball" where
  "checkPaddleCollision b paddle =
     (let bounds = getBounds paddle
      in if ball_x b < bounds_x bounds + bounds_width bounds \<and>
            ball_x b + ball_size b > bounds_x bounds \<and>
            ball_y b < bounds_y bounds + bounds_height bounds \<and>
            ball_y b + ball_size b > bounds_y bounds
         then
           (let paddleCenter = bounds_y bounds + bounds_height bounds / 2;
                ballCenter = ball_y b + ball_size b / 2;
                relativeIntersect = (ballCenter - paddleCenter) / (bounds_height bounds / 2);
                bounceAngle = relativeIntersect * (pi / 3);
                direction = (if ball_vx b > 0 then - 1 else 1 :: real);
                currentSpeed = sqrt (ball_vx b * ball_vx b + ball_vy b * ball_vy b);
                newSpeed = min (currentSpeed * 1.05) (ball_baseSpeed b * 1.5);
                b1 = b\<lparr>ball_vx := cos bounceAngle * newSpeed * direction,
                       ball_vy := sin bounceAngle * newSpeed\<rparr>;
                b2 = (if direction = - 1
                      then b1\<lparr>ball_x := bounds_x bounds - ball_size b1\<rparr>
                      else b1\<lparr>ball_x := bounds_x bounds + bounds_width bounds\<rparr>)
            in (True, b2))
         else (False, b))"

definition ball_reset :: "ball \<Rightarrow> ball" where
  "ball_reset b =
     b\<lparr>ball_x := ball_canvasWidth b / 2 - ball_size b / 2,
       ball_y := ball_canvasHeight b / 2 - ball_size b / 2,
       ball_vx := 0,
       ball_vy := 0\<rparr>"

definition isMoving :: "ball \<Rightarrow> bool" where
  "isMoving b \<longleftrightarrow> ball_vx b \<noteq> 0 \<or> ball_vy b \<noteq> 0"

subsection \<open>score_display.ts: the state of class \<^verbatim>\<open>ScoreDisplay\<close>\<close>

datatype flashSide = Player | Ai

record scoreDisplay =
  playerScore :: int
  aiScore :: int
  flashTimer :: real
  flashDuration :: real
  isFlashing :: bool
  flashingSide :: "flashSide option"

text \<open>The field initialisers of the class.\<close>

definition newScoreDisplay :: scoreDisplay where
  "newScoreDisplay =
     \<lparr> playerScore = 0, aiScore = 0, flashTimer = 0, flashDuration = 150,
       isFlashing = False, flashingSide = None \<rparr>"

definition startFlash :: "flashSide \<Rightarrow> scoreDisplay \<Rightarrow> scoreDisplay" where
  "startFlash side sd = sd\<lparr>isFlashing := True, flashingSide := Some side, flashTimer := 0\<rparr>"

definition setPlayerScore :: "int \<Rightarrow> scoreDisplay \<Rightarrow> scoreDisplay" where
  "setPlayerScore score sd =
     (if score \<noteq> playerScore sd then startFlash Player (sd\<lparr>playerScore := score\<rparr>) else sd)"

definition setAiScore :: "int \<Rightarrow> scoreDisplay \<Rightarrow> scoreDisplay" where
  "setAiScore score sd =
     (if score \<noteq> aiScore sd then startFlash Ai (sd\<lparr>aiScore := score\<rparr>) else sd)"

definition getPlayerScore :: "scoreDisplay \<Rightarrow> int" where
  "getPlayerScore sd = playerScore sd"

definition getAiScore :: "scoreDisplay \<Rightarrow> int" where
  "getAiScore sd = aiScore sd"

text \<open>\<^verbatim>\<open>ScoreDisplay.update(deltaTime)\<close>, the flash timer.\<close>

definition score_update :: "real \<Rightarrow> scoreDisplay \<Rightarrow> scoreDisplay" where
  "score_update deltaTime sd =
     (if isFlashing sd
      then (let sd1 = sd\<lparr>flashTimer := flashTimer sd + deltaTime\<rparr>
            in if flashTimer sd1 \<ge> flashDuration sd1 * 6
               then sd1\<lparr>isFlashing := False, flashingSide := None, flashTimer := 0\<rparr>
               else sd1)
      else sd)"

definition score_reset :: "scoreDisplay \<Rightarrow> scoreDisplay" where
  "score_reset sd =
     sd\<lparr>playerScore := 0, aiScore := 0, isFlashing := False, flashingSide := None,
        flashTimer := 0\<rparr>"

subsection \<open>offline.ts: the simulation state of class \<^verbatim>\<open>PongGame\<close>\<close>

datatype GameState = WAITING | PLAYING | SCORED | GAME_OVER

record dimensions =
  dim_width :: real
  dim_height :: real

text \<open>The entities, which \<^verbatim>\<open>update\<close> asserts to be present, the state, the score delay
  timer and the field dimensions.\<close>

record game =
  playerPaddle :: paddle
  aiPaddle :: paddle
  ball :: ball
  scoreDisplay :: scoreDisplay
  state :: GameState
  scoreDelayTimer :: real
  dimensions :: dimensions

text \<open>
  The loop of \<^verbatim>\<open>updateAI\<close> that mirrors the predicted \<open>y\<close> back into the field:
  \<^verbatim>\<open>while (predictedY < 0 || predictedY > height) { if (predictedY < 0) predictedY =
  -predictedY; if (predictedY > height) predictedY = 2 * height - predictedY; }\<close>.
  \<open>None\<close> is a loop that never ends. This is the loop on the real reading of
  \<^verbatim>\<open>number\<close>; \<open>reflectLoop64\<close> below is the same loop on doubles, and the two agree for a
  prediction of magnitude below \<open>2\<^sup>5\<^sup>3\<close>.
\<close>

partial_function (option) reflectLoop :: "real \<Rightarrow> real \<Rightarrow> real option" where
  "reflectLoop height predictedY =
     (if predictedY < 0 \<or> predictedY > height
      then (let p1 = (if predictedY < 0 then - predictedY else predictedY);
                p2 = (if p1 > height then 2 * height - p1 else p1)
            in reflectLoop height p2)
      else Some predictedY)"

text \<open>The prediction of \<^verbatim>\<open>updateAI\<close> up to the end of the loop, for a ball with
  \<open>vx > 0\<close>: the branch's first statements, on the real reading (\<open>predictedTarget64\<close> is
  the same on doubles).\<close>

definition predictedTarget :: "game \<Rightarrow> real option" where
  "predictedTarget g =
     (let timeToReach = (paddle_x (aiPaddle g) - ball_x (ball g)) / ball_vx (ball g);
          predictedY = ball_y (ball g) + ball_vy (ball g) * timeToReach
      in reflectLoop (dim_height (dimensions g)) predictedY)"

text \<open>\<^verbatim>\<open>updateAI(deltaTime)\<close>; \<open>rnd\<close> is the draw of \<^verbatim>\<open>Math.random()\<close> for the offset.\<close>

definition updateAI :: "real \<Rightarrow> real \<Rightarrow> game \<Rightarrow> game option" where
  "updateAI deltaTime rnd g =
     (if ball_vx (ball g) > 0
      then (case predictedTarget g of
              None \<Rightarrow> None
            | Some predictedY \<Rightarrow>
                (let randomOffset = (rnd - 0.5) * 20
                 in Some (g\<lparr>aiPaddle :=
                      moveToward (predictedY + randomOffset) deltaTime AI_REACTION_SPEED
                        (aiPaddle g)\<rparr>)))
      else Some (g\<lparr>aiPaddle :=
             moveToward (dim_height (dimensions g) / 2) deltaTime (AI_REACTION_SPEED * 0.5)
               (aiPaddle g)\<rparr>))"

text \<open>The scoring part of \<^verbatim>\<open>updatePlaying\<close>, the body of \<^verbatim>\<open>if (scored) { ... }\<close>.\<close>

definition handleScoring :: "edge option \<Rightarrow> game \<Rightarrow> game" where
  "handleScoring scored g =
     (case scored of
        None \<Rightarrow> g
      | Some e \<Rightarrow>
          (let sd = (if e = Left
                     then setAiScore (getAiScore (scoreDisplay g) + 1) (scoreDisplay g)
                     else setPlayerScore (getPlayerScore (scoreDisplay g) + 1) (scoreDisplay g));
               g1 = g\<lparr>scoreDisplay := sd\<rparr>
           in if getPlayerScore (scoreDisplay g1) \<ge> WINNING_SCORE \<or>
                 getAiScore (scoreDisplay g1) \<ge> WINNING_SCORE
              then g1\<lparr>state := GAME_OVER\<rparr>
              else g1\<lparr>state := SCORED, scoreDelayTimer := 0, ball := ball_reset (ball g1)\<rparr>))"

text \<open>\<^verbatim>\<open>updatePlaying(deltaTime)\<close>: the AI paddle, the ball, the two collision tests, the
  scoring.\<close>

definition updatePlaying :: "real \<Rightarrow> real \<Rightarrow> game \<Rightarrow> game option" where
  "updatePlaying deltaTime rnd g =
     (case updateAI deltaTime rnd g of
        None \<Rightarrow> None
      | Some g1 \<Rightarrow>
          (let (scored, b1) = update deltaTime (ball g1);
               (hitPlayer, b2) = checkPaddleCollision b1 (playerPaddle g1);
               (hitAi, b3) = checkPaddleCollision b2 (aiPaddle g1)
           in Some (handleScoring scored (g1\<lparr>ball := b3\<rparr>))))"

text \<open>\<^verbatim>\<open>updateScored(deltaTime)\<close>; \<open>rndSide\<close> is the draw compared with 0.5 for the side,
  \<open>rndAngle\<close> the draw inside \<^verbatim>\<open>launch\<close>.\<close>

definition updateScored :: "real \<Rightarrow> real \<Rightarrow> real \<Rightarrow> game \<Rightarrow> game" where
  "updateScored deltaTime rndSide rndAngle g =
     (let g1 = g\<lparr>scoreDelayTimer := scoreDelayTimer g + deltaTime\<rparr>
      in if scoreDelayTimer g1 \<ge> SCORE_DELAY
         then g1\<lparr>state := PLAYING, ball := launch (rndSide > 0.5) rndAngle (ball g1)\<rparr>
         else g1)"

text \<open>The entities and fields as \<^verbatim>\<open>init\<close> and the field initialisers create them;
  \<open>availableWidth\<close> is the width \<^verbatim>\<open>adjustDimensions\<close> reads from the page.\<close>

definition DEFAULT_DIMENSIONS :: dimensions where
  "DEFAULT_DIMENSIONS = \<lparr> dim_width = 600, dim_height = 150 \<rparr>"

definition init :: "real \<Rightarrow> game" where
  "init availableWidth =
     (let dims = DEFAULT_DIMENSIONS\<lparr>dim_width := min (dim_width DEFAULT_DIMENSIONS) availableWidth\<rparr>
      in \<lparr> playerPaddle = newPaddle PADDLE_MARGIN (dim_height dims),
           aiPaddle = newPaddle (dim_width dims - PADDLE_MARGIN - PADDLE_WIDTH) (dim_height dims),
           ball = newBall (dim_width dims) (dim_height dims),
           scoreDisplay = newScoreDisplay,
           state = WAITING,
           scoreDelayTimer = 0,
           dimensions = dims \<rparr>)"

subsection \<open>Notions the properties are stated with\<close>

text \<open>The overlap test of \<^verbatim>\<open>checkPaddleCollision\<close>: the ball's square and the paddle's
  rectangle share an area.\<close>

definition overlaps :: "ball \<Rightarrow> paddle \<Rightarrow> bool" where
  "overlaps b p \<longleftrightarrow>
     ball_x b < paddle_x p + paddle_width p \<and> ball_x b + ball_size b > paddle_x p \<and>
     ball_y b < paddle_y p + paddle_height p \<and> ball_y b + ball_size b > paddle_y p"

text \<open>The magnitude of the ball's velocity.\<close>

definition speed :: "ball \<Rightarrow> real" where
  "speed b = sqrt (ball_vx b * ball_vx b + ball_vy b * ball_vy b)"

text \<open>
  The steps the specification gives for \<^verbatim>\<open>Ball.update\<close>, each on its own: integrate the
  position, reflect at the top wall, reflect at the bottom wall, then look whether the
  ball is beyond the left or the right edge.
\<close>

definition spec_integrate :: "real \<Rightarrow> ball \<Rightarrow> ball" where
  "spec_integrate deltaTime b =
     b\<lparr>ball_x := ball_x b + ball_vx b * (deltaTime / 16.67),
       ball_y := ball_y b + ball_vy b * (deltaTime / 16.67)\<rparr>"

definition spec_bounceTop :: "ball \<Rightarrow> ball" where
  "spec_bounceTop b = (if ball_y b \<le> 0 then b\<lparr>ball_y := 0, ball_vy := - ball_vy b\<rparr> else b)"

definition spec_bounceBottom :: "ball \<Rightarrow> ball" where
  "spec_bounceBottom b =
     (if ball_y b + ball_size b \<ge> ball_canvasHeight b
      then b\<lparr>ball_y := ball_canvasHeight b - ball_size b, ball_vy := - ball_vy b\<rparr> else b)"

definition spec_crossing :: "ball \<Rightarrow> edge option" where
  "spec_crossing b =
     (if ball_x b + ball_size b < 0 then Some Left
      else if ball_x b > ball_canvasWidth b then Some Right else None)"

text \<open>The calls that change a \<^verbatim>\<open>ScoreDisplay\<close>, and a sequence of them run from left to
  right. (The drawing methods read the scores and change nothing.)\<close>

datatype scoreOp = SetPlayerScore int | SetAiScore int | ScoreUpdate real | ScoreReset

fun applyScoreOp :: "scoreOp \<Rightarrow> scoreDisplay \<Rightarrow> scoreDisplay" where
  "applyScoreOp (SetPlayerScore n) sd = setPlayerScore n sd"
| "applyScoreOp (SetAiScore n) sd = setAiScore n sd"
| "applyScoreOp (ScoreUpdate deltaTime) sd = score_update deltaTime sd"
| "applyScoreOp ScoreReset sd = score_reset sd"

fun runScoreOps :: "scoreOp list \<Rightarrow> scoreDisplay \<Rightarrow> scoreDisplay" where
  "runScoreOps [] sd = sd"
| "runScoreOps (op # ops) sd = runScoreOps ops (applyScoreOp op sd)"

text \<open>A sequence of calls without \<^verbatim>\<open>reset\<close> in which every setter is given a value that
  is not below the score at the time of the call, as the controller's calls
  \<^verbatim>\<open>setAiScore(getAiScore() + 1)\<close> and \<^verbatim>\<open>setPlayerScore(getPlayerScore() + 1)\<close> are.\<close>

fun raisingOp :: "scoreDisplay \<Rightarrow> scoreOp \<Rightarrow> bool" where
  "raisingOp sd (SetPlayerScore n) = (getPlayerScore sd \<le> n)"
| "raisingOp sd (SetAiScore n) = (getAiScore sd \<le> n)"
| "raisingOp sd (ScoreUpdate deltaTime) = True"
| "raisingOp sd ScoreReset = False"

fun raising :: "scoreDisplay \<Rightarrow> scoreOp list \<Rightarrow> bool" where
  "raising sd [] = True"
| "raising sd (op # ops) = (raisingOp sd op \<and> raising (applyScoreOp op sd) ops)"

text \<open>The bounce angle \<^verbatim>\<open>checkPaddleCollision\<close> computes from where the ball meets the
  paddle, and the speed it gives the ball.\<close>

definition bounceAngle :: "ball \<Rightarrow> paddle \<Rightarrow> real" where
  "bounceAngle b p =
     ((ball_y b + ball_size b / 2) - (paddle_y p + paddle_height p / 2)) / (paddle_height p / 2)
       * (pi / 3)"

definition newSpeed :: "ball \<Rightarrow> real" where
  "newSpeed b = min (speed b * 1.05) (ball_baseSpeed b * 1.5)"




subsection \<open>The numbers of the prediction as IEEE 754 doubles\<close>

text \<open>
  The real reading of \<^verbatim>\<open>number\<close> is exact for the clamps, the comparisons and the scores.
  The prediction of \<^verbatim>\<open>updateAI\<close> is where doubles and reals part: a subtraction at a large
  magnitude absorbs the smaller operand, and a quotient can overflow. For the prediction
  the arithmetic is therefore modelled a second time, on binary64 values: a finite value
  (a real that the format represents), the two infinities and NaN. The sign of zero is not
  kept; it shows only in a division by zero, and \<^verbatim>\<open>updateAI\<close> divides by \<open>vx > 0\<close>.
\<close>

datatype double = Finite real | PlusInfinity | MinusInfinity | NaN

text \<open>The unit in the last place of the binade of \<open>a = \<bar>x\<bar>\<close>: the least
  \<open>u = 2\<^sup>-\<^sup>1\<^sup>0\<^sup>7\<^sup>4 * 2\<^sup>i\<close> with \<open>a < u * 2\<^sup>5\<^sup>3\<close>, found by doubling from the smallest
  subnormal \<open>2\<^sup>-\<^sup>1\<^sup>0\<^sup>7\<^sup>4\<close> up to \<open>2\<^sup>9\<^sup>7\<^sup>1\<close>, the unit of the largest binade.\<close>

fun ulpSearch :: "nat \<Rightarrow> real \<Rightarrow> real \<Rightarrow> real" where
  "ulpSearch 0 u a = u"
| "ulpSearch (Suc n) u a = (if a < u * 2 ^ 53 then u else ulpSearch n (2 * u) a)"

definition minSubnormal :: real where
  "minSubnormal = 1 / 2 ^ 1074"

definition ulp64 :: "real \<Rightarrow> real" where
  "ulp64 x = ulpSearch 2045 minSubnormal \<bar>x\<bar>"

text \<open>Rounding to the nearest integer, a tie to the even one.\<close>

definition roundEven :: "real \<Rightarrow> int" where
  "roundEven y =
     (let q = \<lfloor>y\<rfloor>; f = y - of_int q
      in if f < 1 / 2 then q else if 1 / 2 < f then q + 1 else if even q then q else q + 1)"

text \<open>Round to nearest, ties to even, of a real to binary64: the nearest multiple of the
  unit in the last place, and an infinity when that is \<open>2\<^sup>1\<^sup>0\<^sup>2\<^sup>4\<close> or beyond.\<close>

definition round64 :: "real \<Rightarrow> double" where
  "round64 x =
     (let r = of_int (roundEven (x / ulp64 x)) * ulp64 x
      in if 2 ^ 1024 \<le> r then PlusInfinity
         else if r \<le> - (2 ^ 1024) then MinusInfinity
         else Finite r)"

text \<open>A real is a double when rounding leaves it as it is.\<close>

definition isDouble :: "real \<Rightarrow> bool" where
  "isDouble x \<longleftrightarrow> round64 x = Finite x"

text \<open>The operations of the prediction: unary minus, \<open>+\<close>, \<open>-\<close>, \<open>*\<close>, \<open>/\<close> and \<open><\<close>.\<close>

fun dneg :: "double \<Rightarrow> double" where
  "dneg (Finite x) = Finite (- x)"
| "dneg PlusInfinity = MinusInfinity"
| "dneg MinusInfinity = PlusInfinity"
| "dneg NaN = NaN"

fun dadd :: "double \<Rightarrow> double \<Rightarrow> double" where
  "dadd (Finite x) (Finite y) = round64 (x + y)"
| "dadd NaN b = NaN"
| "dadd a NaN = NaN"
| "dadd PlusInfinity MinusInfinity = NaN"
| "dadd MinusInfinity PlusInfinity = NaN"
| "dadd PlusInfinity b = PlusInfinity"
| "dadd a PlusInfinity = PlusInfinity"
| "dadd MinusInfinity b = MinusInfinity"
| "dadd a MinusInfinity = MinusInfinity"

definition dsub :: "double \<Rightarrow> double \<Rightarrow> double" where
  "dsub a b = dadd a (dneg b)"

text \<open>An infinity with the sign of a finite factor; zero times an infinity is NaN.\<close>

definition signedInfinity :: "real \<Rightarrow> double \<Rightarrow> double" where
  "signedInfinity x infinity = (if x = 0 then NaN else if 0 < x then infinity else dneg infinity)"

fun dmul :: "double \<Rightarrow> double \<Rightarrow> double" where
  "dmul (Finite x) (Finite y) = round64 (x * y)"
| "dmul NaN b = NaN"
| "dmul a NaN = NaN"
| "dmul (Finite x) PlusInfinity = signedInfinity x PlusInfinity"
| "dmul (Finite x) MinusInfinity = signedInfinity x MinusInfinity"
| "dmul PlusInfinity (Finite y) = signedInfinity y PlusInfinity"
| "dmul MinusInfinity (Finite y) = signedInfinity y MinusInfinity"
| "dmul PlusInfinity PlusInfinity = PlusInfinity"
| "dmul MinusInfinity MinusInfinity = PlusInfinity"
| "dmul PlusInfinity MinusInfinity = MinusInfinity"
| "dmul MinusInfinity PlusInfinity = MinusInfinity"

text \<open>A finite value over zero is an infinity with the sign of the numerator (zero over
  zero is NaN); a finite value over an infinity is zero; an infinity over an infinity is
  NaN.\<close>

fun ddiv :: "double \<Rightarrow> double \<Rightarrow> double" where
  "ddiv (Finite x) (Finite y) = (if y = 0 then signedInfinity x PlusInfinity else round64 (x / y))"
| "ddiv NaN b = NaN"
| "ddiv a NaN = NaN"
| "ddiv (Finite x) PlusInfinity = Finite 0"
| "ddiv (Finite x) MinusInfinity = Finite 0"
| "ddiv PlusInfinity (Finite y) = (if 0 \<le> y then PlusInfinity else MinusInfinity)"
| "ddiv MinusInfinity (Finite y) = (if 0 \<le> y then MinusInfinity else PlusInfinity)"
| "ddiv PlusInfinity PlusInfinity = NaN"
| "ddiv PlusInfinity MinusInfinity = NaN"
| "ddiv MinusInfinity PlusInfinity = NaN"
| "ddiv MinusInfinity MinusInfinity = NaN"

text \<open>\<open>a < b\<close>: false when one side is NaN.\<close>

fun dless :: "double \<Rightarrow> double \<Rightarrow> bool" where
  "dless (Finite x) (Finite y) = (x < y)"
| "dless NaN b = False"
| "dless a NaN = False"
| "dless a MinusInfinity = False"
| "dless PlusInfinity b = False"
| "dless MinusInfinity b = True"
| "dless a PlusInfinity = True"

text \<open>The first two statements of the branch \<open>vx > 0\<close> of \<^verbatim>\<open>updateAI\<close> on doubles:
  \<^verbatim>\<open>timeToReach = (aiPaddle.x - ball.x) / ball.vx\<close> and
  \<^verbatim>\<open>predictedY = ball.y + ball.vy * timeToReach\<close>.\<close>

definition predictedY64 :: "game \<Rightarrow> double" where
  "predictedY64 g =
     (let timeToReach = ddiv (dsub (Finite (paddle_x (aiPaddle g))) (Finite (ball_x (ball g))))
                          (Finite (ball_vx (ball g)))
      in dadd (Finite (ball_y (ball g))) (dmul (Finite (ball_vy (ball g))) timeToReach))"

text \<open>The mirror loop on doubles; \<open>None\<close> is a loop that never ends.\<close>

partial_function (option) reflectLoop64 :: "double \<Rightarrow> double \<Rightarrow> double option" where
  "reflectLoop64 height predictedY =
     (if dless predictedY (Finite 0) \<or> dless height predictedY
      then (let p1 = (if dless predictedY (Finite 0) then dneg predictedY else predictedY);
                p2 = (if dless height p1 then dsub (dmul (Finite 2) height) p1 else p1)
            in reflectLoop64 height p2)
      else Some predictedY)"

definition predictedTarget64 :: "game \<Rightarrow> double option" where
  "predictedTarget64 g = reflectLoop64 (Finite (dim_height (dimensions g))) (predictedY64 g)"

text \<open>The numbers the prediction reads are doubles.\<close>

definition doubleFields :: "game \<Rightarrow> bool" where
  "doubleFields g \<longleftrightarrow>
     isDouble (paddle_x (aiPaddle g)) \<and> isDouble (ball_x (ball g)) \<and> isDouble (ball_y (ball g))
     \<and> isDouble (ball_vx (ball g)) \<and> isDouble (ball_vy (ball g))
     \<and> isDouble (dim_height (dimensions g))"

declare reflectLoop.simps [code]
declare reflectLoop64.simps [code]

section \<open>Paddle movement\<close>

lemma moveUp_inField:
  assumes "0 \<le> deltaTime" "0 \<le> paddle_speed p" "inField p"
  shows "inField (moveUp deltaTime p)"
proof -
  define movement where "movement = paddle_speed p * (deltaTime / 16.67)"
  have "0 \<le> movement"
    using assms(1,2) by (simp add: movement_def)
  then show ?thesis
    using assms(3) unfolding inField_def moveUp_def Let_def movement_def [symmetric] by simp
qed

lemma moveDown_inField:
  assumes "0 \<le> deltaTime" "0 \<le> paddle_speed p" "inField p"
  shows "inField (moveDown deltaTime p)"
proof -
  define movement where "movement = paddle_speed p * (deltaTime / 16.67)"
  have "0 \<le> movement"
    using assms(1,2) by (simp add: movement_def)
  then show ?thesis
    using assms(3) unfolding inField_def moveDown_def Let_def movement_def [symmetric] by simp
qed

lemma moveUp_at_top:
  assumes "0 \<le> deltaTime" "0 \<le> paddle_speed p" "paddle_y p = 0"
  shows "moveUp deltaTime p = p"
proof -
  define movement where "movement = paddle_speed p * (deltaTime / 16.67)"
  have "0 \<le> movement"
    using assms(1,2) by (simp add: movement_def)
  then show ?thesis
    using assms(3) unfolding moveUp_def Let_def movement_def [symmetric] by simp
qed

lemma moveDown_at_bottom:
  assumes "0 \<le> deltaTime" "0 \<le> paddle_speed p"
    "paddle_y p = paddle_canvasHeight p - paddle_height p"
  shows "moveDown deltaTime p = p"
proof -
  define movement where "movement = paddle_speed p * (deltaTime / 16.67)"
  have "0 \<le> movement"
    using assms(1,2) by (simp add: movement_def)
  then show ?thesis
    using assms(3) unfolding moveDown_def Let_def movement_def [symmetric] by simp
qed

lemma moveToward_cases:
  "moveToward targetY deltaTime reactionSpeed p = p
   \<or> moveToward targetY deltaTime reactionSpeed p = moveDown (deltaTime * reactionSpeed) p
   \<or> moveToward targetY deltaTime reactionSpeed p = moveUp (deltaTime * reactionSpeed) p"
  by (simp add: moveToward_def Let_def)

lemma moveToward_inField:
  assumes "0 \<le> deltaTime" "0 \<le> reactionSpeed" "0 \<le> paddle_speed p" "inField p"
  shows "inField (moveToward targetY deltaTime reactionSpeed p)"
proof -
  have "0 \<le> deltaTime * reactionSpeed"
    using assms(1,2) by simp
  then show ?thesis
    using moveToward_cases [of targetY deltaTime reactionSpeed p]
      moveUp_inField [of "deltaTime * reactionSpeed" p]
      moveDown_inField [of "deltaTime * reactionSpeed" p] assms(3,4)
    by auto
qed

text \<open>
  Claim C2. A paddle of non-negative speed (the constructor sets 5) whose \<open>y\<close> lies in
  \<open>[0, canvasHeight - height]\<close> keeps it there under \<^verbatim>\<open>moveUp\<close> and \<^verbatim>\<open>moveDown\<close> for
  every \<open>deltaTime \<ge> 0\<close>; at \<open>y = 0\<close> \<^verbatim>\<open>moveUp\<close> changes nothing and at
  \<open>y = canvasHeight - height\<close> \<^verbatim>\<open>moveDown\<close> changes nothing; \<^verbatim>\<open>moveToward\<close>, which is
  the identity or one of the two moves with \<open>deltaTime * reactionSpeed\<close>, keeps the range
  as well for a reaction speed that is not negative (the configuration documents 0 to 1).
\<close>

theorem C2_paddle_stays_in_field:
  assumes "0 \<le> deltaTime" and "0 \<le> paddle_speed p" and "inField p"
  shows "inField (moveUp deltaTime p) \<and> inField (moveDown deltaTime p)
    \<and> (paddle_y p = 0 \<longrightarrow> paddle_y (moveUp deltaTime p) = 0)
    \<and> (paddle_y p = paddle_canvasHeight p - paddle_height p \<longrightarrow>
          paddle_y (moveDown deltaTime p) = paddle_canvasHeight p - paddle_height p)
    \<and> (0 \<le> reactionSpeed \<longrightarrow>
          inField (moveToward targetY deltaTime reactionSpeed p)
          \<and> moveToward targetY deltaTime reactionSpeed p
              \<in> {p, moveUp (deltaTime * reactionSpeed) p, moveDown (deltaTime * reactionSpeed) p})"
  using assms moveUp_inField [of deltaTime p] moveDown_inField [of deltaTime p]
    moveUp_at_top [of deltaTime p] moveDown_at_bottom [of deltaTime p]
    moveToward_inField [of deltaTime reactionSpeed p targetY]
    moveToward_cases [of targetY deltaTime reactionSpeed p]
  by auto

theorem C2_paddle_stays_in_field_witness:
  "(0::real) \<le> 1667 \<and> 0 \<le> paddle_speed (newPaddle 20 150) \<and> inField (newPaddle 20 150)
   \<and> inField (moveUp 1667 (newPaddle 20 150)) \<and> inField (moveDown 1667 (newPaddle 20 150))
   \<and> (0::real) \<le> 0.85
   \<and> inField (moveToward 0 1667 0.85 (newPaddle 20 150))
   \<and> paddle_y (moveUp 1667 (newPaddle 20 150)) = 0
   \<and> paddle_y (moveUp 1667 (moveUp 1667 (newPaddle 20 150))) = 0
   \<and> paddle_y (moveDown 1667 (newPaddle 20 150)) = 110
   \<and> paddle_y (moveDown 1667 (moveDown 1667 (newPaddle 20 150))) = 110"
proof -
  have h: "(0::real) \<le> 1667" "0 \<le> paddle_speed (newPaddle 20 150)" "inField (newPaddle 20 150)"
    by (simp_all add: newPaddle_def inField_def PADDLE_SPEED_def PADDLE_HEIGHT_def)
  have e: "paddle_y (moveUp 1667 (newPaddle 20 150)) = 0"
    "paddle_y (moveUp 1667 (moveUp 1667 (newPaddle 20 150))) = 0"
    "paddle_y (moveDown 1667 (newPaddle 20 150)) = 110"
    "paddle_y (moveDown 1667 (moveDown 1667 (newPaddle 20 150))) = 110"
    by (simp_all add: moveUp_def moveDown_def newPaddle_def PADDLE_SPEED_def PADDLE_HEIGHT_def)
  show ?thesis
    using h e C2_paddle_stays_in_field [OF h, of "0.85" 0] by simp
qed

section \<open>Paddle collisions\<close>

text \<open>
  Claim C10. When the ball's square and the paddle's rectangle do not overlap,
  \<^verbatim>\<open>checkPaddleCollision\<close> returns false and the ball it leaves is the ball it was given,
  field by field.
\<close>

theorem C10_no_overlap_no_change:
  assumes "\<not> overlaps b p"
  shows "checkPaddleCollision b p = (False, b)"
  using assms by (auto simp add: checkPaddleCollision_def overlaps_def getBounds_def Let_def)

theorem C10_no_overlap_no_change_witness:
  "\<not> overlaps (newBall 600 150) (newPaddle 20 150)
   \<and> checkPaddleCollision (newBall 600 150) (newPaddle 20 150) = (False, newBall 600 150)"
proof -
  have h: "\<not> overlaps (newBall 600 150) (newPaddle 20 150)"
    by (simp add: overlaps_def newBall_def newPaddle_def BALL_SIZE_def PADDLE_WIDTH_def)
  show ?thesis using h C10_no_overlap_no_change [OF h] by simp
qed

text \<open>
  Claim C9. A ball at rest (\<open>vx = 0\<close> and \<open>vy = 0\<close>) that overlaps a paddle makes
  \<^verbatim>\<open>checkPaddleCollision\<close> return true and is moved to the paddle's right edge,
  \<open>bounds.x + bounds.width\<close>, and its velocity is zero afterwards, since the new speed is
  \<open>min (0 * 1.05) (1.5 * baseSpeed) = 0\<close>: the ball is not moving after the collision.
\<close>

theorem C9_ball_at_rest_stays_at_rest:
  assumes "overlaps b p" and "ball_vx b = 0" and "ball_vy b = 0"
    and "0 \<le> ball_baseSpeed b" and "0 < paddle_height p"
  shows "fst (checkPaddleCollision b p) = True
    \<and> ball_x (snd (checkPaddleCollision b p)) = bounds_x (getBounds p) + bounds_width (getBounds p)
    \<and> ball_vx (snd (checkPaddleCollision b p)) = 0
    \<and> ball_vy (snd (checkPaddleCollision b p)) = 0
    \<and> min (speed b * 1.05) (ball_baseSpeed b * 1.5) = 0
    \<and> \<not> isMoving (snd (checkPaddleCollision b p))"
  using assms
  by (simp add: checkPaddleCollision_def overlaps_def getBounds_def Let_def speed_def isMoving_def)

text \<open>The witness: a field 50 wide, where the ball at the centre lies over the player's
  paddle at \<open>x = 20\<close>.\<close>

theorem C9_ball_at_rest_stays_at_rest_witness:
  "overlaps (newBall 50 150) (newPaddle 20 150)
   \<and> ball_vx (newBall 50 150) = 0 \<and> ball_vy (newBall 50 150) = 0
   \<and> 0 \<le> ball_baseSpeed (newBall 50 150) \<and> 0 < paddle_height (newPaddle 20 150)
   \<and> fst (checkPaddleCollision (newBall 50 150) (newPaddle 20 150)) = True
   \<and> ball_x (snd (checkPaddleCollision (newBall 50 150) (newPaddle 20 150))) = 30
   \<and> \<not> isMoving (snd (checkPaddleCollision (newBall 50 150) (newPaddle 20 150)))"
proof -
  have h: "overlaps (newBall 50 150) (newPaddle 20 150)"
    "ball_vx (newBall 50 150) = 0" "ball_vy (newBall 50 150) = 0"
    "0 \<le> ball_baseSpeed (newBall 50 150)" "0 < paddle_height (newPaddle 20 150)"
    by (simp_all add: overlaps_def newBall_def newPaddle_def BALL_SIZE_def PADDLE_WIDTH_def
        PADDLE_HEIGHT_def BALL_SPEED_def)
  have "bounds_x (getBounds (newPaddle 20 150)) + bounds_width (getBounds (newPaddle 20 150)) = 30"
    by (simp add: getBounds_def newPaddle_def PADDLE_WIDTH_def)
  then show ?thesis using h C9_ball_at_rest_stays_at_rest [OF h] by simp
qed

section \<open>The prediction loop of the AI paddle\<close>

lemma reflectLoop_inside:
  assumes "0 \<le> p" "p \<le> H"
  shows "reflectLoop H p = Some p"
  using assms by (subst reflectLoop.simps) simp

lemma reflectLoop_below:
  assumes "p < 0" "0 < H"
  shows "reflectLoop H p = reflectLoop H (if - p > H then 2 * H + p else - p)"
  using assms by (subst reflectLoop.simps) (simp add: Let_def)

lemma reflectLoop_above:
  assumes "H < p" "0 < H"
  shows "reflectLoop H p = reflectLoop H (2 * H - p)"
  using assms by (subst reflectLoop.simps) (simp add: Let_def)

lemma reflectLoop_bounded:
  assumes H: "0 < H"
  shows "\<bar>p\<bar> \<le> 2 * H * real n \<Longrightarrow> \<exists>y. reflectLoop H p = Some y \<and> 0 \<le> y \<and> y \<le> H"
proof (induction n arbitrary: p)
  case 0
  then have "p = 0" by simp
  then show ?case using H reflectLoop_inside [of 0 H] by simp
next
  case (Suc n)
  have step: "\<exists>y. reflectLoop H q = Some y \<and> 0 \<le> y \<and> y \<le> H"
    if "q \<le> H" "- q \<le> 2 * H * real n" for q
  proof (cases "0 \<le> q")
    case True
    then show ?thesis using that reflectLoop_inside [of q H] by simp
  next
    case False
    then have "\<bar>q\<bar> \<le> 2 * H * real n" using that by simp
    then show ?thesis by (rule Suc.IH)
  qed
  from Suc.prems have bound: "\<bar>p\<bar> \<le> 2 * H * real n + 2 * H"
    by (simp add: algebra_simps)
  consider "0 \<le> p \<and> p \<le> H" | "p < 0" "- p \<le> H" | "p < 0" "H < - p" | "H < p"
    by linarith
  then show ?case
  proof cases
    case 1
    then show ?thesis using reflectLoop_inside [of p H] by simp
  next
    case 2
    then have "reflectLoop H p = reflectLoop H (- p)"
      using reflectLoop_below [of p H] H by simp
    moreover have "reflectLoop H (- p) = Some (- p)"
      using 2 reflectLoop_inside [of "- p" H] by simp
    ultimately show ?thesis using 2 by simp
  next
    case 3
    then have "reflectLoop H p = reflectLoop H (2 * H + p)"
      using reflectLoop_below [of p H] H by simp
    moreover have "\<exists>y. reflectLoop H (2 * H + p) = Some y \<and> 0 \<le> y \<and> y \<le> H"
      using 3 bound by (intro step) simp_all
    ultimately show ?thesis by simp
  next
    case 4
    then have "reflectLoop H p = reflectLoop H (2 * H - p)"
      using reflectLoop_above [of H p] H by simp
    moreover have "\<exists>y. reflectLoop H (2 * H - p) = Some y \<and> 0 \<le> y \<and> y \<le> H"
      using 4 bound by (intro step) simp_all
    ultimately show ?thesis by simp
  qed
qed

lemma reflectLoop_terminates:
  assumes "0 < H"
  shows "\<exists>y. reflectLoop H p = Some y \<and> 0 \<le> y \<and> y \<le> H"
proof -
  obtain n :: nat where "\<bar>p\<bar> / (2 * H) \<le> real n"
    using real_arch_simple by blast
  then have "\<bar>p\<bar> \<le> 2 * H * real n"
    using assms by (simp add: field_simps)
  then show ?thesis
    by (rule reflectLoop_bounded [OF assms])
qed

lemma updateAI_returns:
  assumes "0 < dim_height (dimensions g)"
  shows "\<exists>p. updateAI deltaTime rnd g = Some (g\<lparr>aiPaddle := p\<rparr>)"
proof (cases "0 < ball_vx (ball g)")
  case True
  obtain y where "predictedTarget g = Some y"
    using reflectLoop_terminates [OF assms] by (auto simp add: predictedTarget_def Let_def)
  then have "updateAI deltaTime rnd g =
      Some (g\<lparr>aiPaddle := moveToward (y + (rnd - 0.5) * 20) deltaTime AI_REACTION_SPEED (aiPaddle g)\<rparr>)"
    using True by (simp add: updateAI_def Let_def)
  then show ?thesis by (rule exI)
next
  case False
  then have "updateAI deltaTime rnd g =
      Some (g\<lparr>aiPaddle := moveToward (dim_height (dimensions g) / 2) deltaTime
        (AI_REACTION_SPEED * 0.5) (aiPaddle g)\<rparr>)"
    by (simp add: updateAI_def)
  then show ?thesis by (rule exI)
qed

section \<open>The ball's step\<close>

lemma update_decomposed:
  "update deltaTime b =
     (spec_crossing (spec_bounceBottom (spec_bounceTop (spec_integrate deltaTime b))),
      spec_bounceBottom (spec_bounceTop (spec_integrate deltaTime b)))"
proof -
  define b2 where "b2 = spec_integrate deltaTime b"
  define b3 where "b3 = spec_bounceTop b2"
  define b4 where "b4 = spec_bounceBottom b3"
  have i: "b\<lparr>ball_x := ball_x b + ball_vx b * (deltaTime / 16.67)\<rparr>
      \<lparr>ball_y := ball_y (b\<lparr>ball_x := ball_x b + ball_vx b * (deltaTime / 16.67)\<rparr>)
          + ball_vy (b\<lparr>ball_x := ball_x b + ball_vx b * (deltaTime / 16.67)\<rparr>)
            * (deltaTime / 16.67)\<rparr> = b2"
    by (simp add: b2_def spec_integrate_def)
  have t: "(if ball_y b2 \<le> 0 then b2\<lparr>ball_y := 0, ball_vy := - ball_vy b2\<rparr> else b2) = b3"
    by (simp add: b3_def spec_bounceTop_def)
  have u: "(if ball_y b3 + ball_size b3 \<ge> ball_canvasHeight b3
            then b3\<lparr>ball_y := ball_canvasHeight b3 - ball_size b3, ball_vy := - ball_vy b3\<rparr>
            else b3) = b4"
    by (simp add: b4_def spec_bounceBottom_def)
  have "update deltaTime b =
      (if ball_x b4 + ball_size b4 < 0 then (Some Left, b4)
       else if ball_x b4 > ball_canvasWidth b4 then (Some Right, b4)
       else (None, b4))"
    unfolding update_def Let_def i t u ..
  also have "\<dots> = (spec_crossing b4, b4)"
    by (simp add: spec_crossing_def)
  finally show ?thesis
    by (simp add: b4_def b3_def b2_def)
qed

lemma spec_frame:
  "ball_x (spec_bounceBottom b) = ball_x b" "ball_x (spec_bounceTop b) = ball_x b"
  "ball_size (spec_bounceBottom b) = ball_size b" "ball_size (spec_bounceTop b) = ball_size b"
  "ball_canvasWidth (spec_bounceBottom b) = ball_canvasWidth b"
  "ball_canvasWidth (spec_bounceTop b) = ball_canvasWidth b"
  "ball_canvasHeight (spec_bounceBottom b) = ball_canvasHeight b"
  "ball_canvasHeight (spec_bounceTop b) = ball_canvasHeight b"
  "ball_baseSpeed (spec_bounceBottom b) = ball_baseSpeed b"
  "ball_baseSpeed (spec_bounceTop b) = ball_baseSpeed b"
  "ball_vx (spec_bounceBottom b) = ball_vx b" "ball_vx (spec_bounceTop b) = ball_vx b"
  by (simp_all add: spec_bounceBottom_def spec_bounceTop_def)

lemma spec_integrate_frame:
  "ball_x (spec_integrate deltaTime b) = ball_x b + ball_vx b * (deltaTime / 16.67)"
  "ball_size (spec_integrate deltaTime b) = ball_size b"
  "ball_canvasWidth (spec_integrate deltaTime b) = ball_canvasWidth b"
  "ball_canvasHeight (spec_integrate deltaTime b) = ball_canvasHeight b"
  "ball_baseSpeed (spec_integrate deltaTime b) = ball_baseSpeed b"
  "ball_vx (spec_integrate deltaTime b) = ball_vx b"
  by (simp_all add: spec_integrate_def)

lemma update_frame:
  "ball_x (snd (update deltaTime b)) = ball_x b + ball_vx b * (deltaTime / 16.67)"
  "ball_size (snd (update deltaTime b)) = ball_size b"
  "ball_canvasWidth (snd (update deltaTime b)) = ball_canvasWidth b"
  "ball_canvasHeight (snd (update deltaTime b)) = ball_canvasHeight b"
  "ball_baseSpeed (snd (update deltaTime b)) = ball_baseSpeed b"
  "ball_vx (snd (update deltaTime b)) = ball_vx b"
  unfolding update_decomposed snd_conv spec_frame spec_integrate_frame by (rule refl)+

lemma update_signal:
  "fst (update deltaTime b) = spec_crossing (snd (update deltaTime b))"
  unfolding update_decomposed fst_conv snd_conv ..

lemma spec_crossing_iff:
  assumes "0 \<le> ball_size b" "0 \<le> ball_canvasWidth b"
  shows "spec_crossing b = Some Left \<longleftrightarrow> ball_x b + ball_size b < 0"
    and "spec_crossing b = Some Right \<longleftrightarrow> ball_x b > ball_canvasWidth b"
    and "spec_crossing b = None \<longleftrightarrow>
           \<not> ball_x b + ball_size b < 0 \<and> \<not> ball_x b > ball_canvasWidth b"
  using assms by (simp_all add: spec_crossing_def)

text \<open>
  Claim C3. For a ball of non-negative size in a field of non-negative width,
  \<^verbatim>\<open>update\<close> returns \<^verbatim>\<open>'left'\<close> exactly when the ball it leaves has \<open>x + size < 0\<close>,
  \<^verbatim>\<open>'right'\<close> exactly when it has \<open>x > canvasWidth\<close>, and \<^verbatim>\<open>null\<close> otherwise. The ball
  it leaves is the integrated ball with the top and the bottom wall reflection applied
  (clamped \<open>y\<close>, \<open>vy\<close> with its sign flipped), and the signal is computed from that ball: the
  walls are resolved before the edges are looked at. \<^verbatim>\<open>update\<close> works on the ball alone:
  in a game whose ball is replaced by the updated one the score display is the same.
\<close>

theorem C3_update_signal:
  assumes "0 \<le> ball_size b" and "0 \<le> ball_canvasWidth b"
  shows "(fst (update deltaTime b) = Some Left \<longleftrightarrow>
            ball_x (snd (update deltaTime b)) + ball_size (snd (update deltaTime b)) < 0)
    \<and> (fst (update deltaTime b) = Some Right \<longleftrightarrow>
            ball_x (snd (update deltaTime b)) > ball_canvasWidth (snd (update deltaTime b)))
    \<and> (fst (update deltaTime b) = None \<longleftrightarrow>
            \<not> ball_x (snd (update deltaTime b)) + ball_size (snd (update deltaTime b)) < 0
            \<and> \<not> ball_x (snd (update deltaTime b)) > ball_canvasWidth (snd (update deltaTime b)))
    \<and> snd (update deltaTime b) = spec_bounceBottom (spec_bounceTop (spec_integrate deltaTime b))
    \<and> fst (update deltaTime b) = spec_crossing (snd (update deltaTime b))
    \<and> scoreDisplay (g\<lparr>ball := snd (update deltaTime (ball g))\<rparr>) = scoreDisplay g"
proof -
  define b' where "b' = snd (update deltaTime b)"
  have wf: "0 \<le> ball_size b'" "0 \<le> ball_canvasWidth b'"
    using assms by (simp_all add: b'_def update_frame)
  have sig: "fst (update deltaTime b) = spec_crossing b'"
    unfolding b'_def by (rule update_signal)
  have dec: "b' = spec_bounceBottom (spec_bounceTop (spec_integrate deltaTime b))"
    unfolding b'_def update_decomposed snd_conv ..
  have frame: "scoreDisplay (g\<lparr>ball := snd (update deltaTime (ball g))\<rparr>) = scoreDisplay g"
    by simp
  show ?thesis
    unfolding b'_def [symmetric] sig
    using spec_crossing_iff [OF wf] dec frame by simp
qed


text \<open>The witness: a ball that in one step passes the top wall and the left edge.\<close>

theorem C3_update_signal_witness:
  "0 \<le> ball_size ((newBall 600 150)\<lparr>ball_x := - 5, ball_y := 2, ball_vx := - 4, ball_vy := - 4\<rparr>)
   \<and> 0 \<le> ball_canvasWidth ((newBall 600 150)\<lparr>ball_x := - 5, ball_y := 2, ball_vx := - 4, ball_vy := - 4\<rparr>)
   \<and> fst (update 16.67 ((newBall 600 150)\<lparr>ball_x := - 5, ball_y := 2, ball_vx := - 4, ball_vy := - 4\<rparr>))
       = Some Left
   \<and> ball_x (snd (update 16.67 ((newBall 600 150)\<lparr>ball_x := - 5, ball_y := 2, ball_vx := - 4, ball_vy := - 4\<rparr>)))
       = - 9
   \<and> ball_y (snd (update 16.67 ((newBall 600 150)\<lparr>ball_x := - 5, ball_y := 2, ball_vx := - 4, ball_vy := - 4\<rparr>)))
       = 0
   \<and> ball_vy (snd (update 16.67 ((newBall 600 150)\<lparr>ball_x := - 5, ball_y := 2, ball_vx := - 4, ball_vy := - 4\<rparr>)))
       = 4"
proof -
  define b where "b = (newBall 600 150)\<lparr>ball_x := - 5, ball_y := 2, ball_vx := - 4, ball_vy := - 4\<rparr>"
  have h: "0 \<le> ball_size b" "0 \<le> ball_canvasWidth b"
    by (simp_all add: b_def newBall_def BALL_SIZE_def)
  have i: "spec_integrate 16.67 b = b\<lparr>ball_x := - 9, ball_y := - 2\<rparr>"
    by (simp add: spec_integrate_def b_def)
  have t: "spec_bounceTop (b\<lparr>ball_x := - 9, ball_y := - 2\<rparr>)
      = b\<lparr>ball_x := - 9, ball_y := 0, ball_vy := 4\<rparr>"
    by (simp add: spec_bounceTop_def b_def)
  have u: "spec_bounceBottom (b\<lparr>ball_x := - 9, ball_y := 0, ball_vy := 4\<rparr>)
      = b\<lparr>ball_x := - 9, ball_y := 0, ball_vy := 4\<rparr>"
    by (simp add: spec_bounceBottom_def b_def newBall_def BALL_SIZE_def)
  from C3_update_signal [OF h, of "16.67"]
  have eq: "snd (update 16.67 b) = b\<lparr>ball_x := - 9, ball_y := 0, ball_vy := 4\<rparr>"
    and left: "fst (update 16.67 b) = Some Left \<longleftrightarrow>
      ball_x (snd (update 16.67 b)) + ball_size (snd (update 16.67 b)) < 0"
    unfolding i t u by blast+
  have "ball_size b = 8"
    by (simp add: b_def newBall_def BALL_SIZE_def)
  then have "fst (update 16.67 b) = Some Left"
    unfolding left eq by simp
  then show ?thesis
    using h unfolding eq b_def [symmetric] by simp
qed

section \<open>The controller: a frame in state PLAYING\<close>


lemma updatePlaying_unfolded:
  assumes "updateAI deltaTime rnd g = Some (g\<lparr>aiPaddle := p\<rparr>)"
  shows "updatePlaying deltaTime rnd g =
    Some (handleScoring (fst (update deltaTime (ball g)))
      (g\<lparr>aiPaddle := p,
         ball := snd (checkPaddleCollision
                   (snd (checkPaddleCollision (snd (update deltaTime (ball g))) (playerPaddle g)))
                   p)\<rparr>))"
  using assms by (simp add: updatePlaying_def Let_def split_beta)

lemma handleScoring_scoreDisplay:
  "scoreDisplay (handleScoring (Some e) g) =
     (if e = Left then setAiScore (getAiScore (scoreDisplay g) + 1) (scoreDisplay g)
      else setPlayerScore (getPlayerScore (scoreDisplay g) + 1) (scoreDisplay g))"
  by (simp add: handleScoring_def Let_def)




lemma handleScoring_scores:
  "getAiScore (scoreDisplay (handleScoring (Some e) g)) =
     getAiScore (scoreDisplay g) + (if e = Left then 1 else 0)"
  "getPlayerScore (scoreDisplay (handleScoring (Some e) g)) =
     getPlayerScore (scoreDisplay g) + (if e = Right then 1 else 0)"
  unfolding handleScoring_scoreDisplay
  by (cases e; simp add: setAiScore_def setPlayerScore_def getAiScore_def getPlayerScore_def
      startFlash_def)+




section \<open>The launch of the ball\<close>

lemma launch_angle_bounds:
  assumes "0 \<le> rnd" "rnd < 1"
  shows "- (pi / 4) \<le> (rnd - 0.5) * pi / 2" and "(rnd - 0.5) * pi / 2 < pi / 4"
proof -
  have "(- (1 / 2)) * (pi / 2) \<le> (rnd - 0.5) * (pi / 2)"
    using assms(1) by (intro mult_right_mono) simp_all
  then show "- (pi / 4) \<le> (rnd - 0.5) * pi / 2" by simp
  have "(rnd - 0.5) * (pi / 2) < (1 / 2) * (pi / 2)"
    using assms(2) by (intro mult_strict_right_mono) simp_all
  then show "(rnd - 0.5) * pi / 2 < pi / 4" by simp
qed

lemma cos_pos_within_45:
  assumes "- (pi / 4) \<le> a" "a \<le> pi / 4"
  shows "0 < cos a"
proof -
  have "- (pi / 2) < a" "a < pi / 2"
    using assms pi_gt_zero by linarith+
  then show ?thesis by (rule cos_gt_zero_pi)
qed



lemma launch_velocity:
  "ball_vx (launch towardPlayer rnd b) =
     cos ((rnd - 0.5) * pi / 2) * ball_baseSpeed b * (if towardPlayer then - 1 else 1)"
  "ball_vy (launch towardPlayer rnd b) = sin ((rnd - 0.5) * pi / 2) * ball_baseSpeed b"
  by (simp_all add: launch_def Let_def)


lemma launch_isMoving:
  assumes "0 \<le> rnd" "rnd < 1" "0 < ball_baseSpeed b"
  shows "isMoving (launch towardPlayer rnd b)"
proof -
  have "0 < cos ((rnd - 0.5) * pi / 2)"
    using launch_angle_bounds [OF assms(1,2)] by (intro cos_pos_within_45) simp_all
  then show ?thesis
    using assms(3) by (simp add: isMoving_def launch_velocity)
qed



section \<open>The controller: a frame in state SCORED\<close>

text \<open>
  Claim C6. In state SCORED \<^verbatim>\<open>updateScored\<close> adds \<open>deltaTime\<close> to the score delay timer.
  While the sum is below \<^verbatim>\<open>SCORE_DELAY\<close> the state stays SCORED and the ball is the one it
  was, so a ball at rest stays at rest; when the sum reaches \<^verbatim>\<open>SCORE_DELAY\<close> the state
  becomes PLAYING and the ball is launched, and it is moving (for a draw in \<open>[0, 1)\<close> and a
  positive base speed).
\<close>

theorem C6_score_delay:
  assumes "state g = SCORED" and "0 \<le> rndAngle" and "rndAngle < 1"
    and "0 < ball_baseSpeed (ball g)"
  shows "scoreDelayTimer (updateScored deltaTime rndSide rndAngle g) = scoreDelayTimer g + deltaTime
    \<and> (scoreDelayTimer g + deltaTime < SCORE_DELAY \<longrightarrow>
          state (updateScored deltaTime rndSide rndAngle g) = SCORED
          \<and> ball (updateScored deltaTime rndSide rndAngle g) = ball g
          \<and> (\<not> isMoving (ball g) \<longrightarrow>
                \<not> isMoving (ball (updateScored deltaTime rndSide rndAngle g))))
    \<and> (SCORE_DELAY \<le> scoreDelayTimer g + deltaTime \<longrightarrow>
          state (updateScored deltaTime rndSide rndAngle g) = PLAYING
          \<and> ball (updateScored deltaTime rndSide rndAngle g)
              = launch (rndSide > 0.5) rndAngle (ball g)
          \<and> isMoving (ball (updateScored deltaTime rndSide rndAngle g)))"
  using assms launch_isMoving [of rndAngle "ball g" "rndSide > 0.5"]
  by (simp add: updateScored_def Let_def)

text \<open>The witness: with 990 ms on the timer, a frame of 5 ms leaves the game in SCORED and
  a frame of 16 ms launches the ball.\<close>

theorem C6_score_delay_witness:
  "state ((init 600)\<lparr>state := SCORED, scoreDelayTimer := 990\<rparr>) = SCORED
   \<and> (0::real) \<le> 0.25 \<and> (0.25::real) < 1
   \<and> 0 < ball_baseSpeed (ball ((init 600)\<lparr>state := SCORED, scoreDelayTimer := 990\<rparr>))
   \<and> state (updateScored 5 0.75 0.25 ((init 600)\<lparr>state := SCORED, scoreDelayTimer := 990\<rparr>)) = SCORED
   \<and> scoreDelayTimer (updateScored 5 0.75 0.25 ((init 600)\<lparr>state := SCORED, scoreDelayTimer := 990\<rparr>))
       = 995
   \<and> \<not> isMoving (ball (updateScored 5 0.75 0.25
         ((init 600)\<lparr>state := SCORED, scoreDelayTimer := 990\<rparr>)))
   \<and> state (updateScored 16 0.75 0.25 ((init 600)\<lparr>state := SCORED, scoreDelayTimer := 990\<rparr>)) = PLAYING
   \<and> isMoving (ball (updateScored 16 0.75 0.25
         ((init 600)\<lparr>state := SCORED, scoreDelayTimer := 990\<rparr>)))"
proof -
  let ?g = "(init 600)\<lparr>state := SCORED, scoreDelayTimer := 990\<rparr>"
  have h: "state ?g = SCORED" "(0::real) \<le> 0.25" "(0.25::real) < 1"
    "0 < ball_baseSpeed (ball ?g)"
    by (simp_all add: init_def newBall_def BALL_SPEED_def)
  have t: "scoreDelayTimer ?g + 5 < SCORE_DELAY" "SCORE_DELAY \<le> scoreDelayTimer ?g + 16"
    "scoreDelayTimer ?g + 5 = 995"
    "\<not> isMoving (ball ?g)"
    by (simp_all add: SCORE_DELAY_def init_def isMoving_def newBall_def)
  from C6_score_delay [OF h, of 5 "0.75"] t(1,3,4)
  have a: "state (updateScored 5 0.75 0.25 ?g) = SCORED"
    "scoreDelayTimer (updateScored 5 0.75 0.25 ?g) = 995"
    "\<not> isMoving (ball (updateScored 5 0.75 0.25 ?g))"
    by simp_all
  from C6_score_delay [OF h, of 16 "0.75"] t(2)
  have b: "state (updateScored 16 0.75 0.25 ?g) = PLAYING"
    "isMoving (ball (updateScored 16 0.75 0.25 ?g))"
    by blast+
  show ?thesis
    using h a b by blast
qed

section \<open>The score display\<close>

lemma setPlayerScore_scores:
  "getPlayerScore (setPlayerScore n sd) = n"
  "getAiScore (setPlayerScore n sd) = getAiScore sd"
  by (simp_all add: setPlayerScore_def getPlayerScore_def getAiScore_def startFlash_def)

lemma setAiScore_scores:
  "getAiScore (setAiScore n sd) = n"
  "getPlayerScore (setAiScore n sd) = getPlayerScore sd"
  by (simp_all add: setAiScore_def getPlayerScore_def getAiScore_def startFlash_def)

lemma score_update_scores:
  "getPlayerScore (score_update deltaTime sd) = getPlayerScore sd"
  "getAiScore (score_update deltaTime sd) = getAiScore sd"
  by (simp_all add: score_update_def getPlayerScore_def getAiScore_def Let_def)

lemma score_reset_scores:
  "getPlayerScore (score_reset sd) = 0" "getAiScore (score_reset sd) = 0"
  by (simp_all add: score_reset_def getPlayerScore_def getAiScore_def)

lemma raisingOp_mono:
  assumes "raisingOp sd op"
  shows "getPlayerScore sd \<le> getPlayerScore (applyScoreOp op sd)"
    and "getAiScore sd \<le> getAiScore (applyScoreOp op sd)"
  using assms
  by (cases op; simp add: setPlayerScore_scores setAiScore_scores score_update_scores)+

lemma raising_mono:
  "raising sd ops \<Longrightarrow>
     getPlayerScore sd \<le> getPlayerScore (runScoreOps ops sd)
     \<and> getAiScore sd \<le> getAiScore (runScoreOps ops sd)"
proof (induction ops arbitrary: sd)
  case Nil
  then show ?case by simp
next
  case (Cons op ops)
  then have "raisingOp sd op" and rest: "raising (applyScoreOp op sd) ops"
    by simp_all
  from raisingOp_mono [OF this(1)] Cons.IH [OF rest] show ?case
    by simp
qed

lemma runScoreOps_append:
  "runScoreOps (xs @ ys) sd = runScoreOps ys (runScoreOps xs sd)"
  by (induction xs arbitrary: sd) simp_all

lemma raising_append:
  "raising sd (xs @ ys) \<Longrightarrow> raising (runScoreOps xs sd) ys"
  by (induction xs arbitrary: sd) simp_all

lemma updateAI_scoreDisplay:
  assumes "updateAI deltaTime rnd g = Some g1"
  shows "scoreDisplay g1 = scoreDisplay g"
  using assms by (auto simp add: updateAI_def Let_def split: if_splits option.splits)

lemma handleScoring_mono:
  "getPlayerScore (scoreDisplay g) \<le> getPlayerScore (scoreDisplay (handleScoring scored g))"
  "getAiScore (scoreDisplay g) \<le> getAiScore (scoreDisplay (handleScoring scored g))"
proof -
  show "getPlayerScore (scoreDisplay g) \<le> getPlayerScore (scoreDisplay (handleScoring scored g))"
  proof (cases scored)
    case None
    then show ?thesis by (simp add: handleScoring_def)
  next
    case (Some e)
    then show ?thesis by (simp add: handleScoring_scores)
  qed
  show "getAiScore (scoreDisplay g) \<le> getAiScore (scoreDisplay (handleScoring scored g))"
  proof (cases scored)
    case None
    then show ?thesis by (simp add: handleScoring_def)
  next
    case (Some e)
    then show ?thesis by (simp add: handleScoring_scores)
  qed
qed

lemma updatePlaying_scores_mono:
  assumes "updatePlaying deltaTime rnd g = Some g'"
  shows "getPlayerScore (scoreDisplay g) \<le> getPlayerScore (scoreDisplay g')
    \<and> getAiScore (scoreDisplay g) \<le> getAiScore (scoreDisplay g')"
proof -
  obtain g1 where ai: "updateAI deltaTime rnd g = Some g1"
    using assms by (cases "updateAI deltaTime rnd g") (simp_all add: updatePlaying_def)
  obtain scored b3 where g': "g' = handleScoring scored (g1\<lparr>ball := b3\<rparr>)"
    using assms ai by (auto simp add: updatePlaying_def Let_def split_beta)
  have "scoreDisplay (g1\<lparr>ball := b3\<rparr>) = scoreDisplay g"
    using updateAI_scoreDisplay [OF ai] by simp
  then show ?thesis
    unfolding g' using handleScoring_mono [of "g1\<lparr>ball := b3\<rparr>" scored] by simp
qed

text \<open>
  Claim C8 says that no call of \<^verbatim>\<open>setPlayerScore\<close> or \<^verbatim>\<open>setAiScore\<close> lowers a score. The
  setters store the value they are given: after \<^verbatim>\<open>setPlayerScore(5)\<close> the getter returns 5,
  and after \<^verbatim>\<open>setPlayerScore(3)\<close> it returns 3, with no \<^verbatim>\<open>reset\<close> in between.
\<close>

theorem C8_setter_lowers_score:
  "getPlayerScore (setPlayerScore 5 newScoreDisplay) = 5
   \<and> getPlayerScore (setPlayerScore 3 (setPlayerScore 5 newScoreDisplay)) = 3
   \<and> getPlayerScore (setPlayerScore 3 (setPlayerScore 5 newScoreDisplay))
       < getPlayerScore (setPlayerScore 5 newScoreDisplay)
   \<and> getAiScore (setAiScore 3 (setAiScore 5 newScoreDisplay))
       < getAiScore (setAiScore 5 newScoreDisplay)"
  by (simp add: setPlayerScore_scores setAiScore_scores)

text \<open>
  Claim C8, amended. \<^verbatim>\<open>setPlayerScore(n)\<close> and \<^verbatim>\<open>setAiScore(n)\<close> set their score to \<open>n\<close> and
  leave the other score; \<^verbatim>\<open>update\<close> leaves both; \<^verbatim>\<open>reset\<close> sets both to zero. Over every
  sequence of calls without \<^verbatim>\<open>reset\<close> in which each setter is given a value not below the
  current score, the scores after a prefix are not above the scores after the whole
  sequence: no getter returns less than it returned before. The controller is such a
  caller: \<^verbatim>\<open>updatePlaying\<close> lowers neither score, and \<^verbatim>\<open>updateScored\<close> leaves the score
  display as it is.
\<close>

theorem C8_scores_follow_setter:
  "getPlayerScore (setPlayerScore n sd) = n
   \<and> getAiScore (setPlayerScore n sd) = getAiScore sd
   \<and> getAiScore (setAiScore n sd) = n
   \<and> getPlayerScore (setAiScore n sd) = getPlayerScore sd
   \<and> getPlayerScore (score_update deltaTime sd) = getPlayerScore sd
   \<and> getAiScore (score_update deltaTime sd) = getAiScore sd
   \<and> getPlayerScore (score_reset sd) = 0 \<and> getAiScore (score_reset sd) = 0
   \<and> (raising sd (xs @ ys) \<longrightarrow>
         getPlayerScore (runScoreOps xs sd) \<le> getPlayerScore (runScoreOps (xs @ ys) sd)
         \<and> getAiScore (runScoreOps xs sd) \<le> getAiScore (runScoreOps (xs @ ys) sd))
   \<and> (updatePlaying deltaTime rnd g = Some g' \<longrightarrow>
         getPlayerScore (scoreDisplay g) \<le> getPlayerScore (scoreDisplay g')
         \<and> getAiScore (scoreDisplay g) \<le> getAiScore (scoreDisplay g'))
   \<and> scoreDisplay (updateScored deltaTime rndSide rndAngle g) = scoreDisplay g"
proof -
  have seq: "raising sd (xs @ ys) \<longrightarrow>
         getPlayerScore (runScoreOps xs sd) \<le> getPlayerScore (runScoreOps (xs @ ys) sd)
         \<and> getAiScore (runScoreOps xs sd) \<le> getAiScore (runScoreOps (xs @ ys) sd)"
    using raising_mono [OF raising_append, of sd xs ys] by (simp add: runScoreOps_append)
  have ctl: "updatePlaying deltaTime rnd g = Some g' \<longrightarrow>
         getPlayerScore (scoreDisplay g) \<le> getPlayerScore (scoreDisplay g')
         \<and> getAiScore (scoreDisplay g) \<le> getAiScore (scoreDisplay g')"
    using updatePlaying_scores_mono [of deltaTime rnd g g'] by blast
  have sc: "scoreDisplay (updateScored deltaTime rndSide rndAngle g) = scoreDisplay g"
    by (simp add: updateScored_def Let_def)
  show ?thesis
    using seq ctl sc
    by (simp only: setPlayerScore_scores setAiScore_scores score_update_scores
        score_reset_scores simp_thms)
qed


theorem C8_scores_follow_setter_witness:
  "raising newScoreDisplay ([SetPlayerScore 1] @ [SetAiScore 1, ScoreUpdate 16, SetPlayerScore 2])
   \<and> getPlayerScore (runScoreOps [SetPlayerScore 1] newScoreDisplay)
       \<le> getPlayerScore (runScoreOps ([SetPlayerScore 1] @ [SetAiScore 1, ScoreUpdate 16, SetPlayerScore 2])
             newScoreDisplay)
   \<and> getAiScore (runScoreOps [SetPlayerScore 1] newScoreDisplay)
       \<le> getAiScore (runScoreOps ([SetPlayerScore 1] @ [SetAiScore 1, ScoreUpdate 16, SetPlayerScore 2])
             newScoreDisplay)
   \<and> updatePlaying 16.67 0.5 ((init 600)\<lparr>state := PLAYING\<rparr>) \<noteq> None
   \<and> getPlayerScore (scoreDisplay ((init 600)\<lparr>state := PLAYING\<rparr>))
       \<le> getPlayerScore (scoreDisplay (the (updatePlaying 16.67 0.5 ((init 600)\<lparr>state := PLAYING\<rparr>))))"
proof -
  let ?g = "(init 600)\<lparr>state := PLAYING\<rparr>"
  have r: "raising newScoreDisplay ([SetPlayerScore 1] @ [SetAiScore 1, ScoreUpdate 16, SetPlayerScore 2])"
    by (simp add: setPlayerScore_scores setAiScore_scores score_update_scores)
      (simp add: newScoreDisplay_def getPlayerScore_def getAiScore_def)
  have "0 < dim_height (dimensions ?g)"
    by (simp add: init_def DEFAULT_DIMENSIONS_def)
  then obtain p where "updateAI 16.67 0.5 ?g = Some (?g\<lparr>aiPaddle := p\<rparr>)"
    using updateAI_returns by blast
  then obtain g' where g': "updatePlaying 16.67 0.5 ?g = Some g'"
    using updatePlaying_unfolded by blast
  from r g' C8_scores_follow_setter [where sd = newScoreDisplay and xs = "[SetPlayerScore 1]"
        and ys = "[SetAiScore 1, ScoreUpdate 16, SetPlayerScore 2]" and deltaTime = "16.67"
        and rnd = "0.5" and g = ?g and g' = g']
  have m: "getPlayerScore (runScoreOps [SetPlayerScore 1] newScoreDisplay)
       \<le> getPlayerScore (runScoreOps ([SetPlayerScore 1] @ [SetAiScore 1, ScoreUpdate 16, SetPlayerScore 2])
             newScoreDisplay)"
    "getAiScore (runScoreOps [SetPlayerScore 1] newScoreDisplay)
       \<le> getAiScore (runScoreOps ([SetPlayerScore 1] @ [SetAiScore 1, ScoreUpdate 16, SetPlayerScore 2])
             newScoreDisplay)"
    "getPlayerScore (scoreDisplay ?g) \<le> getPlayerScore (scoreDisplay g')"
    by blast+
  have n: "updatePlaying 16.67 0.5 ?g \<noteq> None" "the (updatePlaying 16.67 0.5 ?g) = g'"
    using g' by simp_all
  show ?thesis
    unfolding n(2) using r m n(1) by blast
qed

section \<open>Speed and direction after a collision\<close>

























section \<open>The prediction of the AI paddle on doubles\<close>

subsection \<open>The unit in the last place\<close>

lemma ulpSearch_ge: "0 < u \<Longrightarrow> u \<le> ulpSearch n u a"
proof (induction n arbitrary: u)
  case 0
  then show ?case by simp
next
  case (Suc n)
  from Suc.IH [of "2 * u"] Suc.prems show ?case by simp
qed

lemma ulpSearch_form: "\<exists>i\<le>n. ulpSearch n u a = u * 2 ^ i"
proof (induction n arbitrary: u)
  case 0
  then show ?case by simp
next
  case (Suc n)
  show ?case
  proof (cases "a < u * 2 ^ 53")
    case True
    then have "ulpSearch (Suc n) u a = u * 2 ^ 0" by simp
    then show ?thesis by blast
  next
    case False
    from Suc.IH [of "2 * u"] obtain i where "i \<le> n" "ulpSearch n (2 * u) a = 2 * u * 2 ^ i"
      by blast
    then have "Suc i \<le> Suc n" "ulpSearch (Suc n) u a = u * 2 ^ Suc i"
      using False by simp_all
    then show ?thesis by blast
  qed
qed

lemma ulpSearch_upper: "a < u * 2 ^ (53 + n) \<Longrightarrow> a < ulpSearch n u a * 2 ^ 53"
proof (induction n arbitrary: u)
  case 0
  then show ?case by simp
next
  case (Suc n)
  show ?case
  proof (cases "a < u * 2 ^ 53")
    case True
    then show ?thesis by simp
  next
    case False
    have "(2::real) ^ (53 + Suc n) = 2 * 2 ^ (53 + n)"
      by (simp only: add_Suc_right power_Suc)
    then have "u * 2 ^ (53 + Suc n) = 2 * u * 2 ^ (53 + n)"
      by (simp only: mult.assoc mult.left_commute [of u])
    then have "a < 2 * u * 2 ^ (53 + n)"
      using Suc.prems by (simp only:)
    from Suc.IH [OF this] False show ?thesis by simp
  qed
qed

lemma ulpSearch_lower:
  "0 < u \<Longrightarrow> ulpSearch n u a \<noteq> u \<Longrightarrow> ulpSearch n u a * 2 ^ 52 \<le> a"
proof (induction n arbitrary: u)
  case 0
  then show ?case by simp
next
  case (Suc n)
  then have big: "\<not> a < u * 2 ^ 53" and r: "ulpSearch (Suc n) u a = ulpSearch n (2 * u) a"
    by (auto split: if_splits)
  show ?case
  proof (cases "ulpSearch n (2 * u) a = 2 * u")
    case True
    have "2 * u * 2 ^ 52 = u * 2 ^ 53" by simp
    then show ?thesis using big unfolding r True by linarith
  next
    case False
    from Suc.IH [OF _ False] Suc.prems(1) show ?thesis unfolding r by simp
  qed
qed

lemma ulpSearch_min:
  "0 < u \<Longrightarrow> a < (u * 2 ^ j) * 2 ^ 53 \<Longrightarrow> ulpSearch n u a \<le> u * 2 ^ j"
proof (induction n arbitrary: u j)
  case 0
  have "u * 1 \<le> u * 2 ^ j"
    using 0(1) by (intro mult_left_mono) simp_all
  then show ?case by simp
next
  case (Suc n)
  have one: "u * 1 \<le> u * 2 ^ j"
    using Suc.prems(1) by (intro mult_left_mono) simp_all
  show ?case
  proof (cases "a < u * 2 ^ 53")
    case True
    then show ?thesis using one by simp
  next
    case False
    have "j \<noteq> 0"
      using False Suc.prems(2) by (cases j) simp_all
    then obtain k where j: "j = Suc k" by (cases j) simp_all
    have "a < (2 * u * 2 ^ k) * 2 ^ 53"
      using Suc.prems(2) by (simp add: j mult.assoc)
    from Suc.IH [OF _ this] Suc.prems(1) have "ulpSearch n (2 * u) a \<le> 2 * u * 2 ^ k"
      by simp
    then show ?thesis using False by (simp add: j mult.assoc)
  qed
qed

lemma minSubnormal_pos: "0 < minSubnormal"
  by (simp add: minSubnormal_def)

lemma minSubnormal_unit: "minSubnormal * 2 ^ 1074 = 1"
  by (simp add: minSubnormal_def)

lemma minSubnormal_top: "minSubnormal * 2 ^ (53 + 2045) = 2 ^ 1024"
proof -
  have "(2::real) ^ (53 + 2045) = 2 ^ 1074 * 2 ^ 1024"
    by (simp only: power_add [symmetric]) simp
  then show ?thesis
    by (simp add: minSubnormal_def)
qed

lemma ulp64_pos: "0 < ulp64 x"
  using ulpSearch_ge [OF minSubnormal_pos, of 2045 "\<bar>x\<bar>"] minSubnormal_pos
  by (simp add: ulp64_def)

lemma ulp64_form: "\<exists>i\<le>2045. ulp64 x = minSubnormal * 2 ^ i"
  unfolding ulp64_def by (rule ulpSearch_form)

lemma ulp64_upper: "\<bar>x\<bar> < 2 ^ 1024 \<Longrightarrow> \<bar>x\<bar> < ulp64 x * 2 ^ 53"
  unfolding ulp64_def by (rule ulpSearch_upper) (simp only: minSubnormal_top)

lemma ulp64_lower: "ulp64 x \<noteq> minSubnormal \<Longrightarrow> ulp64 x * 2 ^ 52 \<le> \<bar>x\<bar>"
  unfolding ulp64_def using minSubnormal_pos by (rule ulpSearch_lower)

lemma ulp64_min: "\<bar>x\<bar> < (minSubnormal * 2 ^ j) * 2 ^ 53 \<Longrightarrow> ulp64 x \<le> minSubnormal * 2 ^ j"
  unfolding ulp64_def using minSubnormal_pos by (rule ulpSearch_min)

lemma ladder_ratio:
  assumes "minSubnormal * 2 ^ i \<le> minSubnormal * 2 ^ j"
  shows "i \<le> j" and "minSubnormal * 2 ^ j = (minSubnormal * 2 ^ i) * 2 ^ (j - i)"
proof -
  have "(2::real) ^ i \<le> 2 ^ j"
    using assms minSubnormal_pos by simp
  then show "i \<le> j" by simp
  then have "(2::real) ^ j = 2 ^ i * 2 ^ (j - i)"
    by (simp add: power_add [symmetric])
  then show "minSubnormal * 2 ^ j = (minSubnormal * 2 ^ i) * 2 ^ (j - i)"
    by simp
qed

subsection \<open>Values that rounding leaves as they are\<close>

lemma roundEven_of_int: "roundEven (of_int n) = n"
  by (simp add: roundEven_def)

lemma round64_exact:
  assumes x: "x = of_int n * (minSubnormal * 2 ^ j)"
    and small: "\<bar>x\<bar> < (minSubnormal * 2 ^ j) * 2 ^ 53"
    and finite: "\<bar>x\<bar> < 2 ^ 1024"
  shows "round64 x = Finite x"
proof -
  define U where "U = ulp64 x"
  obtain i where u: "U = minSubnormal * 2 ^ i"
    unfolding U_def using ulp64_form by blast
  have "minSubnormal * 2 ^ i \<le> minSubnormal * 2 ^ j"
    using ulp64_min [OF small] by (simp only: u [symmetric] U_def)
  from ladder_ratio(2) [OF this]
  have v: "minSubnormal * 2 ^ j = U * 2 ^ (j - i)"
    by (simp only: u)
  have pos: "U \<noteq> 0"
    using ulp64_pos [of x] by (simp add: U_def)
  have xU: "of_int (n * 2 ^ (j - i)) * U = x"
    using x by (simp add: v)
  have q: "x / U = of_int (n * 2 ^ (j - i))"
    using pos unfolding xU [symmetric] by simp
  have "of_int (roundEven (x / U)) * U = x"
    by (simp only: q roundEven_of_int xU)
  then have r: "of_int (roundEven (x / ulp64 x)) * ulp64 x = x"
    unfolding U_def .
  have "\<not> 2 ^ 1024 \<le> x" "\<not> x \<le> - (2 ^ 1024)"
    using finite by linarith+
  then show ?thesis
    by (simp only: round64_def Let_def r if_False)
qed

lemma isDouble_multiple:
  assumes "isDouble x"
  shows "\<exists>n. x = of_int n * ulp64 x"
proof -
  have "Finite (of_int (roundEven (x / ulp64 x)) * ulp64 x) = Finite x"
    using assms unfolding isDouble_def round64_def Let_def by (simp split: if_splits)
  then have "x = of_int (roundEven (x / ulp64 x)) * ulp64 x"
    by simp
  then show ?thesis ..
qed

lemma isDouble_finite:
  assumes "isDouble x"
  shows "\<bar>x\<bar> < 2 ^ 1024"
proof -
  have "Finite (of_int (roundEven (x / ulp64 x)) * ulp64 x) = Finite x
      \<and> \<not> 2 ^ 1024 \<le> of_int (roundEven (x / ulp64 x)) * ulp64 x
      \<and> \<not> of_int (roundEven (x / ulp64 x)) * ulp64 x \<le> - (2 ^ 1024)"
    using assms unfolding isDouble_def round64_def Let_def by (simp split: if_splits)
  then have "\<not> 2 ^ 1024 \<le> x" "\<not> x \<le> - (2 ^ 1024)"
    by simp_all
  then show ?thesis by linarith
qed

lemma isDouble_neg:
  assumes "isDouble x"
  shows "isDouble (- x)"
proof -
  obtain n where n: "x = of_int n * ulp64 x"
    using isDouble_multiple [OF assms] by blast
  obtain i where u: "ulp64 x = minSubnormal * 2 ^ i"
    using ulp64_form by blast
  have fin: "\<bar>x\<bar> < 2 ^ 1024"
    using assms by (rule isDouble_finite)
  have "- x = of_int (- n) * (minSubnormal * 2 ^ i)"
    using n unfolding u by simp
  moreover have "\<bar>- x\<bar> < (minSubnormal * 2 ^ i) * 2 ^ 53"
    using ulp64_upper [OF fin] unfolding u by simp
  moreover have "\<bar>- x\<bar> < 2 ^ 1024"
    using fin by simp
  ultimately show ?thesis
    unfolding isDouble_def by (rule round64_exact)
qed

lemma isDouble_int:
  assumes "\<bar>n\<bar> < 2 ^ 53"
  shows "isDouble (of_int n)"
proof -
  have b: "\<bar>of_int n :: real\<bar> < 2 ^ 53"
  proof -
    have "of_int \<bar>n\<bar> < (of_int (2 ^ 53) :: real)"
      using assms by (simp only: of_int_less_iff)
    then show ?thesis by simp
  qed
  have "of_int n = of_int n * (minSubnormal * 2 ^ 1074)"
    by (simp only: minSubnormal_unit mult_1_right)
  moreover have "\<bar>of_int n :: real\<bar> < (minSubnormal * 2 ^ 1074) * 2 ^ 53"
    using b by (simp only: minSubnormal_unit mult_1_left)
  moreover have "\<bar>of_int n :: real\<bar> < 2 ^ 1024"
  proof -
    have "(2::real) ^ 53 \<le> 2 ^ 1024"
      by (rule power_increasing) simp_all
    then show ?thesis using b by linarith
  qed
  ultimately show ?thesis
    unfolding isDouble_def by (rule round64_exact)
qed

text \<open>A result of rounding is a double.\<close>

lemma roundEven_bounds: "of_int (roundEven y) \<le> y + 1 / 2" "y - 1 / 2 \<le> of_int (roundEven y)"
proof -
  define q where "q = \<lfloor>y\<rfloor>"
  have f: "of_int q \<le> y" "y < of_int q + 1"
    unfolding q_def by linarith+
  have r: "roundEven y = (if y - of_int q < 1 / 2 then q else if 1 / 2 < y - of_int q then q + 1
      else if even q then q else q + 1)"
    by (simp only: roundEven_def Let_def q_def)
  consider "y - of_int q < 1 / 2" | "1 / 2 < y - of_int q" | "y - of_int q = 1 / 2"
    by linarith
  then have "of_int (roundEven y) \<le> y + 1 / 2 \<and> y - 1 / 2 \<le> of_int (roundEven y)"
  proof cases
    case 1
    then have "roundEven y = q" by (simp only: r if_True)
    then show ?thesis using f 1 by simp
  next
    case 2
    then have "roundEven y = q + 1" unfolding r by simp
    then show ?thesis using f 2 by simp
  next
    case 3
    then have "roundEven y = q \<or> roundEven y = q + 1" unfolding r by simp
    then show ?thesis using f 3 by auto
  qed
  then show "of_int (roundEven y) \<le> y + 1 / 2" "y - 1 / 2 \<le> of_int (roundEven y)"
    by simp_all
qed

lemma roundEven_floor: "roundEven y = \<lfloor>y\<rfloor> \<or> roundEven y = \<lfloor>y\<rfloor> + 1"
  by (simp add: roundEven_def Let_def)

lemma roundEven_ge_int:
  assumes "of_int m \<le> y"
  shows "m \<le> roundEven y"
proof -
  have "m \<le> \<lfloor>y\<rfloor>"
    using assms by (simp add: le_floor_iff)
  then show ?thesis
    using roundEven_floor [of y] by auto
qed

lemma roundEven_le_int:
  assumes "y \<le> of_int m"
  shows "roundEven y \<le> m"
proof (cases "y = of_int m")
  case True
  then show ?thesis by (simp add: roundEven_of_int)
next
  case False
  then have "y < of_int m"
    using assms by simp
  then have "\<lfloor>y\<rfloor> < m"
    by (simp add: floor_less_iff)
  then show ?thesis
    using roundEven_floor [of y] by auto
qed

lemma roundEven_near:
  assumes "of_int n \<le> y" "y < of_int n + 1 / 2"
  shows "roundEven y = n"
proof -
  have "\<lfloor>y\<rfloor> = n"
    using assms by (intro floor_unique) simp_all
  then show ?thesis
    using assms(2) by (simp add: roundEven_def Let_def)
qed

lemma ulpSearch_top:
  "0 < u \<Longrightarrow> u * 2 ^ (52 + n) \<le> a \<Longrightarrow> ulpSearch n u a = u * 2 ^ n"
proof (induction n arbitrary: u)
  case 0
  then show ?case by simp
next
  case (Suc n)
  have e: "(2::real) ^ (52 + Suc n) = 2 * 2 ^ (52 + n)"
    by (simp only: add_Suc_right power_Suc)
  have e53: "(2::real) ^ 53 \<le> 2 ^ (52 + Suc n)"
    by (rule power_increasing) simp_all
  have "u * 2 ^ 53 \<le> u * 2 ^ (52 + Suc n)"
    using Suc.prems(1) e53 by (intro mult_left_mono) simp_all
  then have big: "\<not> a < u * 2 ^ 53"
    using Suc.prems(2) by linarith
  have "2 * u * 2 ^ (52 + n) = u * 2 ^ (52 + Suc n)"
    by (simp only: e mult.assoc mult.left_commute [of u])
  then have "2 * u * 2 ^ (52 + n) \<le> a"
    using Suc.prems(2) by (simp only:)
  from Suc.IH [OF _ this] Suc.prems(1) have "ulpSearch n (2 * u) a = 2 * u * 2 ^ n"
    by simp
  then show ?case
    using big by (simp add: mult.assoc)
qed

lemma minSubnormal_971: "minSubnormal * 2 ^ 2045 = 2 ^ 971"
proof -
  have "(2::real) ^ 2045 = 2 ^ 1074 * 2 ^ 971"
    by (simp only: power_add [symmetric]) simp
  then show ?thesis
    by (simp add: minSubnormal_def)
qed

lemma minSubnormal_1023: "minSubnormal * 2 ^ (52 + 2045) = 2 ^ 1023"
proof -
  have "(2::real) ^ (52 + 2045) = 2 ^ 1074 * 2 ^ 1023"
    by (simp only: power_add [symmetric]) simp
  then show ?thesis
    by (simp add: minSubnormal_def)
qed

lemma ulp64_huge:
  assumes "2 ^ 1023 \<le> \<bar>x\<bar>"
  shows "ulp64 x = 2 ^ 971"
proof -
  have "minSubnormal * 2 ^ (52 + 2045) \<le> \<bar>x\<bar>"
    using assms by (simp only: minSubnormal_1023)
  from ulpSearch_top [OF minSubnormal_pos this] show ?thesis
    by (simp only: ulp64_def minSubnormal_971)
qed

lemma pow_1024: "(2::real) ^ 1024 = 2 ^ 53 * 2 ^ 971"
  by (simp only: power_add [symmetric]) simp

lemma round64_overflow:
  assumes "2 ^ 1024 \<le> x"
  shows "round64 x = PlusInfinity"
proof -
  have "(2::real) ^ 1023 \<le> 2 ^ 1024"
    by (rule power_increasing) simp_all
  then have u: "ulp64 x = 2 ^ 971"
    using assms by (intro ulp64_huge) linarith
  have "2 ^ 53 * 2 ^ 971 \<le> x"
    using assms by (simp only: pow_1024)
  then have "of_int (2 ^ 53) \<le> x / 2 ^ 971"
    by (simp add: pos_le_divide_eq)
  then have "2 ^ 53 \<le> roundEven (x / 2 ^ 971)"
    by (rule roundEven_ge_int)
  then have "(of_int (2 ^ 53) :: real) \<le> of_int (roundEven (x / 2 ^ 971))"
    by (simp only: of_int_le_iff)
  then have "2 ^ 53 * 2 ^ 971 \<le> of_int (roundEven (x / 2 ^ 971)) * (2 ^ 971 :: real)"
    by (intro mult_right_mono) simp_all
  then have "2 ^ 1024 \<le> of_int (roundEven (x / ulp64 x)) * ulp64 x"
    by (simp only: pow_1024 u)
  then show ?thesis
    by (simp only: round64_def Let_def if_True)
qed

lemma round64_underflow:
  assumes "x \<le> - (2 ^ 1024)"
  shows "round64 x \<noteq> Finite r"
proof -
  have "(2::real) ^ 1023 \<le> 2 ^ 1024"
    by (rule power_increasing) simp_all
  then have u: "ulp64 x = 2 ^ 971"
    using assms by (intro ulp64_huge) linarith
  have "x \<le> - (2 ^ 53) * 2 ^ 971"
    using assms by (simp only: pow_1024 mult_minus_left)
  then have "x / 2 ^ 971 \<le> of_int (- (2 ^ 53))"
    by (simp add: pos_divide_le_eq)
  then have "roundEven (x / 2 ^ 971) \<le> - (2 ^ 53)"
    by (rule roundEven_le_int)
  then have "(of_int (roundEven (x / 2 ^ 971)) :: real) \<le> of_int (- (2 ^ 53))"
    by (simp only: of_int_le_iff)
  then have "of_int (roundEven (x / 2 ^ 971)) * (2 ^ 971 :: real) \<le> of_int (- (2 ^ 53)) * 2 ^ 971"
    by (intro mult_right_mono) simp_all
  then have "of_int (roundEven (x / ulp64 x)) * ulp64 x \<le> - (2 ^ 1024)"
    by (simp add: pow_1024 u)
  then show ?thesis
    by (simp add: round64_def Let_def)
qed

lemma round64_Finite:
  assumes "round64 x = Finite r"
  shows "r = of_int (roundEven (x / ulp64 x)) * ulp64 x" and "\<bar>r\<bar> < 2 ^ 1024"
    and "\<bar>x\<bar> < 2 ^ 1024"
proof -
  define s where "s = of_int (roundEven (x / ulp64 x)) * ulp64 x"
  have d: "round64 x = (if 2 ^ 1024 \<le> s then PlusInfinity
      else if s \<le> - (2 ^ 1024) then MinusInfinity else Finite s)"
    by (simp only: round64_def Let_def s_def)
  have s: "\<not> 2 ^ 1024 \<le> s \<and> \<not> s \<le> - (2 ^ 1024) \<and> s = r"
    using assms unfolding d by (simp split: if_splits)
  then show "r = of_int (roundEven (x / ulp64 x)) * ulp64 x"
    by (simp add: s_def)
  show "\<bar>r\<bar> < 2 ^ 1024"
    using s by linarith
  have "\<not> 2 ^ 1024 \<le> x"
    using round64_overflow [of x] assms by auto
  moreover have "\<not> x \<le> - (2 ^ 1024)"
    using round64_underflow [of x r] assms by auto
  ultimately show "\<bar>x\<bar> < 2 ^ 1024"
    by linarith
qed

lemma round64_isDouble:
  assumes "round64 x = Finite r"
  shows "isDouble r"
proof -
  define U where "U = ulp64 x"
  define n where "n = roundEven (x / U)"
  have r: "r = of_int n * U" and fin: "\<bar>r\<bar> < 2 ^ 1024" and xfin: "\<bar>x\<bar> < 2 ^ 1024"
    using round64_Finite [OF assms] by (simp_all add: U_def n_def)
  obtain i where u: "U = minSubnormal * 2 ^ i"
    unfolding U_def using ulp64_form by blast
  have pos: "0 < U"
    unfolding U_def by (rule ulp64_pos)
  have "\<bar>x\<bar> < U * 2 ^ 53"
    unfolding U_def using xfin by (rule ulp64_upper)
  then have "x < U * 2 ^ 53" "- (U * 2 ^ 53) < x"
    by linarith+
  then have q: "x / U \<le> of_int (2 ^ 53)" "of_int (- (2 ^ 53)) \<le> x / U"
    using pos by (simp_all add: pos_divide_le_eq pos_le_divide_eq mult.commute)
  have n: "n \<le> 2 ^ 53" "- (2 ^ 53) \<le> n"
    unfolding n_def using q(1) roundEven_le_int apply blast
    using q(2) roundEven_ge_int by blast
  show ?thesis
  proof (cases "\<bar>n\<bar> < 2 ^ 53")
    case True
    then have "of_int \<bar>n\<bar> < (of_int (2 ^ 53) :: real)"
      by (simp only: of_int_less_iff)
    then have "\<bar>of_int n :: real\<bar> * U < 2 ^ 53 * U"
      using pos by (intro mult_strict_right_mono) simp_all
    then have "\<bar>r\<bar> < (minSubnormal * 2 ^ i) * 2 ^ 53"
      using pos unfolding r u [symmetric] by (simp add: abs_mult mult.commute)
    moreover have "r = of_int n * (minSubnormal * 2 ^ i)"
      unfolding r u ..
    ultimately show ?thesis
      unfolding isDouble_def using fin by (intro round64_exact)
  next
    case False
    then have "n = 2 ^ 53 \<or> n = - (2 ^ 53)"
      using n by linarith
    then obtain m :: int where m: "n = 2 * m" "\<bar>m\<bar> = 2 ^ 52"
      by (auto intro: that [of "2 ^ 52"] that [of "- (2 ^ 52)"])
    have r2: "r = of_int m * (minSubnormal * 2 ^ Suc i)"
      unfolding r u m(1) by simp
    have "\<bar>of_int m :: real\<bar> = 2 ^ 52"
    proof -
      have "(of_int \<bar>m\<bar> :: real) = of_int (2 ^ 52)"
        by (simp only: m(2))
      then show ?thesis by simp
    qed
    then have "\<bar>r\<bar> = 2 ^ 52 * (minSubnormal * 2 ^ Suc i)"
      using minSubnormal_pos unfolding r2 by (simp add: abs_mult)
    moreover have "2 ^ 52 * (minSubnormal * 2 ^ Suc i) < 2 ^ 53 * (minSubnormal * 2 ^ Suc i)"
      using minSubnormal_pos by (intro mult_strict_right_mono) simp_all
    ultimately have "\<bar>r\<bar> < (minSubnormal * 2 ^ Suc i) * 2 ^ 53"
      by (simp add: mult.commute)
    then show ?thesis
      unfolding isDouble_def using r2 fin by (intro round64_exact)
  qed
qed

lemma isDouble_times_pow2:
  assumes "\<bar>n\<bar> < 2 ^ 53" "k \<le> 971"
  shows "isDouble (of_int n * 2 ^ k)"
proof -
  have b: "\<bar>of_int n :: real\<bar> < 2 ^ 53"
  proof -
    have "of_int \<bar>n\<bar> < (of_int (2 ^ 53) :: real)"
      using assms(1) by (simp only: of_int_less_iff)
    then show ?thesis by simp
  qed
  have p: "minSubnormal * 2 ^ (1074 + k) = 2 ^ k"
    by (simp only: power_add mult.assoc [symmetric] minSubnormal_unit mult_1_left)
  have "\<bar>of_int n * 2 ^ k :: real\<bar> = \<bar>of_int n\<bar> * 2 ^ k"
    by (simp add: abs_mult)
  also have "\<dots> < 2 ^ 53 * 2 ^ k"
    using b by (intro mult_strict_right_mono) simp_all
  finally have small: "\<bar>of_int n * 2 ^ k :: real\<bar> < 2 ^ k * 2 ^ 53"
    by (simp add: mult.commute)
  have "(2::real) ^ k \<le> 2 ^ 971"
    using assms(2) by (intro power_increasing) simp_all
  then have "(2::real) ^ k * 2 ^ 53 \<le> 2 ^ 971 * 2 ^ 53"
    by (intro mult_right_mono) simp_all
  then have fin: "\<bar>of_int n * 2 ^ k :: real\<bar> < 2 ^ 1024"
    using small by (simp add: pow_1024 mult.commute)
  have "of_int n * 2 ^ k = of_int n * (minSubnormal * 2 ^ (1074 + k))"
    by (simp only: p)
  moreover have "\<bar>of_int n * 2 ^ k :: real\<bar> < (minSubnormal * 2 ^ (1074 + k)) * 2 ^ 53"
    using small by (simp only: p)
  ultimately show ?thesis
    unfolding isDouble_def using fin by (intro round64_exact)
qed

lemma isDouble_div_pow2:
  assumes "\<bar>n\<bar> < 2 ^ 53" "k \<le> 1074"
  shows "isDouble (of_int n / 2 ^ k)"
proof -
  have b: "\<bar>of_int n :: real\<bar> < 2 ^ 53"
  proof -
    have "of_int \<bar>n\<bar> < (of_int (2 ^ 53) :: real)"
      using assms(1) by (simp only: of_int_less_iff)
    then show ?thesis by simp
  qed
  have "(2::real) ^ 1074 = 2 ^ (1074 - k) * 2 ^ k"
    using assms(2) by (simp add: power_add [symmetric])
  then have "minSubnormal * (2 ^ (1074 - k) * 2 ^ k) = 1"
    using minSubnormal_unit by simp
  then have p: "minSubnormal * 2 ^ (1074 - k) = 1 / 2 ^ k"
    by (simp add: field_simps)
  have x: "of_int n / 2 ^ k = of_int n * (minSubnormal * 2 ^ (1074 - k))"
    unfolding p by simp
  have "\<bar>of_int n / 2 ^ k :: real\<bar> = \<bar>of_int n\<bar> * (1 / 2 ^ k)"
    by (simp add: abs_mult)
  also have "\<dots> < 2 ^ 53 * (1 / 2 ^ k)"
    using b by (intro mult_strict_right_mono) simp_all
  finally have small: "\<bar>of_int n / 2 ^ k :: real\<bar> < (minSubnormal * 2 ^ (1074 - k)) * 2 ^ 53"
    unfolding p by (simp add: mult.commute)
  have "(1::real) \<le> 2 ^ k"
    by simp
  then have "\<bar>of_int n :: real\<bar> * 1 \<le> \<bar>of_int n\<bar> * 2 ^ k"
    by (intro mult_left_mono) simp_all
  then have "\<bar>of_int n / 2 ^ k :: real\<bar> \<le> \<bar>of_int n\<bar>"
    by (simp add: abs_mult divide_le_eq)
  moreover have "(2::real) ^ 53 \<le> 2 ^ 1024"
    by (rule power_increasing) simp_all
  ultimately have fin: "\<bar>of_int n / 2 ^ k :: real\<bar> < 2 ^ 1024"
    using b by linarith
  show ?thesis
    unfolding isDouble_def using x small fin by (rule round64_exact)
qed

lemma ulp64_binade:
  assumes lo: "2 ^ (52 + k) \<le> \<bar>x\<bar>" and hi: "\<bar>x\<bar> < 2 ^ (53 + k)" and k: "k \<le> 971"
  shows "ulp64 x = 2 ^ k"
proof -
  have p: "minSubnormal * 2 ^ (1074 + k) = 2 ^ k"
    by (simp only: power_add mult.assoc [symmetric] minSubnormal_unit mult_1_left)
  have h53: "(2::real) ^ (53 + k) = 2 ^ k * 2 ^ 53" and h52: "(2::real) ^ (52 + k) = 2 ^ k * 2 ^ 52"
    by (simp_all only: power_add mult.commute)
  have "(2::real) ^ (53 + k) \<le> 2 ^ 1024"
    using k by (intro power_increasing) simp_all
  then have fin: "\<bar>x\<bar> < 2 ^ 1024"
    using hi by linarith
  obtain i where u: "ulp64 x = minSubnormal * 2 ^ i"
    using ulp64_form by blast
  have "\<bar>x\<bar> < (minSubnormal * 2 ^ (1074 + k)) * 2 ^ 53"
    using hi by (simp only: p h53)
  from ulp64_min [OF this] have le: "minSubnormal * 2 ^ i \<le> minSubnormal * 2 ^ (1074 + k)"
    by (simp only: u)
  from ladder_ratio [OF le] have ik: "i \<le> 1074 + k"
    and r: "minSubnormal * 2 ^ (1074 + k) = (minSubnormal * 2 ^ i) * 2 ^ (1074 + k - i)"
    by simp_all
  have "\<not> i < 1074 + k"
  proof
    assume "i < 1074 + k"
    then have "Suc 0 \<le> 1074 + k - i"
      by simp
    then have "(2::real) ^ Suc 0 \<le> 2 ^ (1074 + k - i)"
      by (intro power_increasing) simp_all
    then have "ulp64 x * 2 \<le> ulp64 x * 2 ^ (1074 + k - i)"
      using ulp64_pos [of x] by (intro mult_left_mono) simp_all
    then have "ulp64 x * 2 \<le> 2 ^ k"
      using r by (simp only: u [symmetric] p)
    then have "ulp64 x * 2 * 2 ^ 52 \<le> 2 ^ k * 2 ^ 52"
      by (intro mult_right_mono) simp_all
    then have "ulp64 x * 2 ^ 53 \<le> \<bar>x\<bar>"
      using lo by (simp add: h52)
    then show False
      using ulp64_upper [OF fin] by linarith
  qed
  then have "i = 1074 + k"
    using ik by simp
  then show ?thesis
    by (simp only: u p)
qed

text \<open>The mirror step \<open>2 * height - p\<close> is exact for a double \<open>p\<close> below \<open>2\<^sup>5\<^sup>3\<close> above an
  integer height.\<close>

lemma reflect_exact:
  assumes d: "isDouble p" and h: "0 < h" and lt: "of_int h < p" and b: "p < 2 ^ 53"
  shows "round64 (2 * of_int h - p) = Finite (2 * of_int h - p)"
proof -
  define U where "U = ulp64 p"
  obtain n where n: "p = of_int n * U"
    unfolding U_def using isDouble_multiple [OF d] by blast
  obtain i where u: "U = minSubnormal * 2 ^ i"
    unfolding U_def using ulp64_form by blast
  have pp: "0 < p" "\<bar>p\<bar> = p"
    using h lt by simp_all
  have "\<bar>p\<bar> < (minSubnormal * 2 ^ 1074) * 2 ^ 53"
    using b pp by (simp only: minSubnormal_unit mult_1_left)
  from ulp64_min [OF this] have "minSubnormal * 2 ^ i \<le> minSubnormal * 2 ^ 1074"
    by (simp only: U_def [symmetric] u)
  from ladder_ratio(2) [OF this] have one: "1 = U * 2 ^ (1074 - i)"
    by (simp only: minSubnormal_unit u)
  have "2 * of_int h - p = 2 * of_int h * 1 - p"
    by simp
  also have "\<dots> = 2 * of_int h * (U * 2 ^ (1074 - i)) - of_int n * U"
    using n by (simp only: one [symmetric])
  also have "\<dots> = of_int (2 * h * 2 ^ (1074 - i) - n) * U"
    by (simp add: algebra_simps)
  finally have x: "2 * of_int h - p = of_int (2 * h * 2 ^ (1074 - i) - n) * (minSubnormal * 2 ^ i)"
    by (simp only: u)
  have "(2::real) ^ 53 \<le> 2 ^ 1024"
    by (rule power_increasing) simp_all
  then have fin: "\<bar>p\<bar> < 2 ^ 1024"
    using b pp by linarith
  have lt': "\<bar>2 * of_int h - p\<bar> < p"
    using h lt by (simp add: abs_less_iff)
  have "\<bar>2 * of_int h - p\<bar> < U * 2 ^ 53"
    using lt' ulp64_upper [OF fin] pp by (simp add: U_def)
  then have small: "\<bar>2 * of_int h - p\<bar> < (minSubnormal * 2 ^ i) * 2 ^ 53"
    by (simp only: u)
  have "\<bar>2 * of_int h - p\<bar> < 2 ^ 1024"
    using lt' fin pp by linarith
  with x small show ?thesis
    by (rule round64_exact)
qed

subsection \<open>The mirror loop on doubles\<close>

lemma dadd_Finite_isDouble:
  assumes "dadd a b = Finite r"
  shows "isDouble r"
  using assms by (cases a; cases b) (simp_all add: round64_isDouble)

lemma loop64_inside:
  assumes "0 \<le> p" "p \<le> H"
  shows "reflectLoop64 (Finite H) (Finite p) = Some (Finite p)"
  using assms by (subst reflectLoop64.simps) simp

lemma loop64_flip:
  assumes "p < 0" "- p \<le> H"
  shows "reflectLoop64 (Finite H) (Finite p) = reflectLoop64 (Finite H) (Finite (- p))"
  using assms by (subst reflectLoop64.simps) (simp add: Let_def)

lemma loop64_above:
  assumes "H < p" "0 \<le> H" "round64 (2 * H) = Finite (2 * H)"
    and "round64 (2 * H - p) = Finite (2 * H - p)"
  shows "reflectLoop64 (Finite H) (Finite p) = reflectLoop64 (Finite H) (Finite (2 * H - p))"
  using assms by (subst reflectLoop64.simps) (simp add: Let_def dsub_def)

lemma loop64_below:
  assumes "p < 0" "H < - p" "round64 (2 * H) = Finite (2 * H)"
    and "round64 (2 * H + p) = Finite (2 * H + p)"
  shows "reflectLoop64 (Finite H) (Finite p) = reflectLoop64 (Finite H) (Finite (2 * H + p))"
  using assms by (subst reflectLoop64.simps) (simp add: Let_def dsub_def)

lemma loop64_agrees:
  fixes h :: int
  assumes h: "0 < h" "h < 2 ^ 52"
  shows "isDouble p \<Longrightarrow> \<bar>p\<bar> < 2 ^ 53 \<Longrightarrow> \<bar>p\<bar> \<le> 2 * of_int h * real n \<Longrightarrow>
    \<exists>y. reflectLoop64 (Finite (of_int h)) (Finite p) = Some (Finite y)
      \<and> reflectLoop (of_int h) p = Some y \<and> 0 \<le> y \<and> y \<le> of_int h"
proof (induction n arbitrary: p)
  case 0
  then have "p = 0" by simp
  then show ?case
    using h(1) loop64_inside [of 0 "of_int h"] reflectLoop_inside [of 0 "of_int h"] by simp
next
  case (Suc n)
  define H :: real where "H = of_int h"
  have H: "0 < H"
    using h(1) by (simp add: H_def)
  have "\<bar>2 * h\<bar> < 2 ^ 53"
    using h by simp
  from isDouble_int [OF this] have two: "round64 (2 * H) = Finite (2 * H)"
    by (simp add: isDouble_def H_def)
  have step: "\<exists>y. reflectLoop64 (Finite H) (Finite q) = Some (Finite y)
      \<and> reflectLoop H q = Some y \<and> 0 \<le> y \<and> y \<le> H"
    if "isDouble q" "\<bar>q\<bar> < 2 ^ 53" "q \<le> H" "- q \<le> 2 * H * real n" for q
  proof (cases "0 \<le> q")
    case True
    then show ?thesis
      using that(3) loop64_inside [of q H] reflectLoop_inside [of q H] by simp
  next
    case False
    then have "\<bar>q\<bar> \<le> 2 * of_int h * real n"
      using that(4) by (simp add: H_def)
    from Suc.IH [OF that(1,2) this] show ?thesis
      by (simp only: H_def)
  qed
  from Suc.prems(3) have bound: "\<bar>p\<bar> \<le> 2 * H * real n + 2 * H"
    by (simp add: algebra_simps H_def)
  have goal: "\<exists>y. reflectLoop64 (Finite H) (Finite p) = Some (Finite y)
      \<and> reflectLoop H p = Some y \<and> 0 \<le> y \<and> y \<le> H"
  proof -
    consider "0 \<le> p \<and> p \<le> H" | "p < 0" "- p \<le> H" | "p < 0" "H < - p" | "H < p"
      by linarith
    then show ?thesis
    proof cases
      case 1
      then show ?thesis
        using loop64_inside [of p H] reflectLoop_inside [of p H] by simp
    next
      case 2
      have "reflectLoop64 (Finite H) (Finite p) = reflectLoop64 (Finite H) (Finite (- p))"
        using 2 by (rule loop64_flip)
      moreover have "reflectLoop64 (Finite H) (Finite (- p)) = Some (Finite (- p))"
        using 2 by (intro loop64_inside) simp_all
      moreover have "reflectLoop H p = reflectLoop H (- p)"
        using 2 reflectLoop_below [of p H] H by simp
      moreover have "reflectLoop H (- p) = Some (- p)"
        using 2 by (intro reflectLoop_inside) simp_all
      ultimately show ?thesis
        using 2 by simp
    next
      case 3
      have d: "isDouble (- p)"
        using Suc.prems(1) by (rule isDouble_neg)
      have "round64 (2 * of_int h - (- p)) = Finite (2 * of_int h - (- p))"
        using d h(1) 3 Suc.prems(2) by (intro reflect_exact) (simp_all add: H_def)
      then have e: "round64 (2 * H + p) = Finite (2 * H + p)"
        by (simp add: H_def)
      have "reflectLoop64 (Finite H) (Finite p) = reflectLoop64 (Finite H) (Finite (2 * H + p))"
        using 3 two e by (rule loop64_below)
      moreover have "reflectLoop H p = reflectLoop H (2 * H + p)"
        using 3 reflectLoop_below [of p H] H by simp
      moreover have "\<exists>y. reflectLoop64 (Finite H) (Finite (2 * H + p)) = Some (Finite y)
          \<and> reflectLoop H (2 * H + p) = Some y \<and> 0 \<le> y \<and> y \<le> H"
      proof (rule step)
        show "isDouble (2 * H + p)"
          using e by (simp only: isDouble_def)
        show "\<bar>2 * H + p\<bar> < 2 ^ 53"
          using 3 H Suc.prems(2) by (simp add: abs_less_iff)
        show "2 * H + p \<le> H"
          using 3 by simp
        show "- (2 * H + p) \<le> 2 * H * real n"
          using 3 bound by simp
      qed
      ultimately show ?thesis by simp
    next
      case 4
      have "round64 (2 * of_int h - p) = Finite (2 * of_int h - p)"
        using Suc.prems(1) h(1) 4 Suc.prems(2) by (intro reflect_exact) (simp_all add: H_def)
      then have e: "round64 (2 * H - p) = Finite (2 * H - p)"
        by (simp only: H_def)
      have "reflectLoop64 (Finite H) (Finite p) = reflectLoop64 (Finite H) (Finite (2 * H - p))"
        using 4 H two e by (intro loop64_above) simp_all
      moreover have "reflectLoop H p = reflectLoop H (2 * H - p)"
        using 4 reflectLoop_above [of H p] H by simp
      moreover have "\<exists>y. reflectLoop64 (Finite H) (Finite (2 * H - p)) = Some (Finite y)
          \<and> reflectLoop H (2 * H - p) = Some y \<and> 0 \<le> y \<and> y \<le> H"
      proof (rule step)
        show "isDouble (2 * H - p)"
          using e by (simp only: isDouble_def)
        show "\<bar>2 * H - p\<bar> < 2 ^ 53"
          using 4 H Suc.prems(2) by (simp add: abs_less_iff)
        show "2 * H - p \<le> H"
          using 4 by simp
        show "- (2 * H - p) \<le> 2 * H * real n"
          using 4 bound by simp
      qed
      ultimately show ?thesis by simp
    qed
  qed
  then show ?case
    by (simp only: H_def)
qed

text \<open>Rounding a value of a known binade: the quotient by the unit lies within a half above
  an integer.\<close>

lemma round64_eval:
  assumes "2 ^ (52 + k) \<le> \<bar>x\<bar>" "\<bar>x\<bar> < 2 ^ (53 + k)" "k \<le> 971"
    and "of_int n \<le> x / 2 ^ k" "x / 2 ^ k < of_int n + 1 / 2"
    and "\<bar>of_int n * 2 ^ k :: real\<bar> < 2 ^ 1024"
  shows "round64 x = Finite (of_int n * 2 ^ k)"
proof -
  have u: "ulp64 x = 2 ^ k"
    using assms(1-3) by (rule ulp64_binade)
  have r: "roundEven (x / 2 ^ k) = n"
    using assms(4,5) by (rule roundEven_near)
  have "\<not> 2 ^ 1024 \<le> of_int n * (2 ^ k :: real)" "\<not> of_int n * (2 ^ k :: real) \<le> - (2 ^ 1024)"
    using assms(6) by linarith+
  then show ?thesis
    by (simp only: round64_def Let_def u r if_False)
qed

lemma round64_small_ints:
  "round64 274 = Finite 274" "round64 (- 274) = Finite (- 274)" "round64 (- 203) = Finite (- 203)"
  "round64 300 = Finite 300" "round64 (137 / 2) = Finite (137 / 2)"
  using isDouble_int [of 274] isDouble_int [of "- 274"] isDouble_int [of "- 203"]
    isDouble_int [of 300] isDouble_div_pow2 [of 137 1]
  by (simp_all add: isDouble_def)

lemma init_600_fields:
  "paddle_x (aiPaddle (init 600)) = 570"
  "dim_height (dimensions (init 600)) = 150"
  "ball_x (newBall 600 150) = 296"
  "ball_y (newBall 600 150) = 71"
  by (simp_all add: init_def DEFAULT_DIMENSIONS_def newPaddle_def newBall_def PADDLE_MARGIN_def
      PADDLE_WIDTH_def BALL_SIZE_def)

lemma isDouble_small_ints:
  "isDouble 570" "isDouble 296" "isDouble 71" "isDouble 150" "isDouble 4" "isDouble (- 4)"
  "isDouble 0"
  using isDouble_int [of 570] isDouble_int [of 296] isDouble_int [of 71] isDouble_int [of 150]
    isDouble_int [of 4] isDouble_int [of "- 4"] isDouble_int [of 0]
  by simp_all

lemma predictedY64_ordinary:
  "predictedY64 ((init 600)\<lparr>ball := (newBall 600 150)\<lparr>ball_vx := 4, ball_vy := - 4\<rparr>\<rparr>)
     = Finite (- 203)"
  by (simp add: predictedY64_def Let_def init_600_fields dsub_def round64_small_ints)

text \<open>The velocity \<open>(4, 10\<^sup>1\<^sup>8)\<close>: the prediction is \<open>6.85 * 10\<^sup>1\<^sup>9\<close>, where the unit in the
  last place is 8192, so adding 71 and subtracting from 300 are absorbed.\<close>

lemma round64_huge_values:
  "round64 68500000000000000000 = Finite 68500000000000000000"
  "round64 68500000000000000071 = Finite 68500000000000000000"
  "round64 (- 68499999999999999700) = Finite (- 68500000000000000000)"
proof -
  show "round64 68500000000000000000 = Finite 68500000000000000000"
    using isDouble_times_pow2 [of 522613525390625 17] by (simp add: isDouble_def)
  have "round64 68500000000000000071 = Finite (of_int 8361816406250000 * 2 ^ 13)"
    by (rule round64_eval) simp_all
  then show "round64 68500000000000000071 = Finite 68500000000000000000"
    by simp
  have "round64 (- 68499999999999999700) = Finite (of_int (- 8361816406250000) * 2 ^ 13)"
    by (rule round64_eval) simp_all
  then show "round64 (- 68499999999999999700) = Finite (- 68500000000000000000)"
    by simp
qed

lemma predictedY64_huge:
  "predictedY64 ((init 600)\<lparr>ball := (newBall 600 150)\<lparr>ball_vx := 4,
      ball_vy := 1000000000000000000\<rparr>\<rparr>) = Finite 68500000000000000000"
  by (simp add: predictedY64_def Let_def init_600_fields dsub_def round64_small_ints
      round64_huge_values)

lemma loop64_cycle:
  "reflectLoop64 (Finite 150) (Finite 68500000000000000000)
     = reflectLoop64 (Finite 150) (Finite (- 68500000000000000000))"
  "reflectLoop64 (Finite 150) (Finite (- 68500000000000000000))
     = reflectLoop64 (Finite 150) (Finite (- 68500000000000000000))"
  by (subst reflectLoop64.simps,
      simp add: Let_def dsub_def round64_small_ints round64_huge_values)+

lemma loop64_never_returns:
  assumes a: "reflectLoop64 height predictedY = Some y"
  shows "\<not> (height = Finite 150 \<and> predictedY = Finite (- 68500000000000000000))"
proof (rule reflectLoop64.raw_induct
    [where P = "\<lambda>h x y. \<not> (h = Finite 150 \<and> x = Finite (- 68500000000000000000))", OF _ a],
    goal_cases)
  case (1 loop h x z)
  show ?case
  proof
    assume b: "h = Finite 150 \<and> x = Finite (- 68500000000000000000)"
    have "loop (Finite 150) (Finite (- 68500000000000000000)) = Some z"
      using 1(2) b by (simp add: Let_def dsub_def round64_small_ints round64_huge_values)
    from 1(1) [OF this] show False by simp
  qed
qed

lemma predictedTarget64_huge:
  "predictedTarget64 ((init 600)\<lparr>ball := (newBall 600 150)\<lparr>ball_vx := 4,
      ball_vy := 1000000000000000000\<rparr>\<rparr>) = None"
proof -
  have "reflectLoop64 (Finite 150) (Finite (- 68500000000000000000)) = None"
    using loop64_never_returns [of "Finite 150" "Finite (- 68500000000000000000)"]
    by (cases "reflectLoop64 (Finite 150) (Finite (- 68500000000000000000))") auto
  then show ?thesis
    by (simp add: predictedTarget64_def predictedY64_huge init_600_fields loop64_cycle(1))
qed

text \<open>The velocity \<open>(2\<^sup>-\<^sup>1\<^sup>0\<^sup>2\<^sup>0, 0)\<close>: the time to reach the paddle overflows to infinity, zero
  times infinity is NaN, and NaN passes the loop's test.\<close>

lemma predictedY64_tiny:
  "predictedY64 ((init 600)\<lparr>ball := (newBall 600 150)\<lparr>ball_vx := 1 / 2 ^ 1020, ball_vy := 0\<rparr>\<rparr>)
     = NaN"
proof -
  have "round64 (274 * 2 ^ 1020) = PlusInfinity"
    by (rule round64_overflow) simp
  then have "ddiv (Finite 274) (Finite (1 / 2 ^ 1020)) = PlusInfinity"
    by simp
  then show ?thesis
    by (simp add: predictedY64_def Let_def init_600_fields dsub_def round64_small_ints
        signedInfinity_def del: ddiv.simps)
qed

lemma predictedTarget64_tiny:
  "predictedTarget64 ((init 600)\<lparr>ball := (newBall 600 150)\<lparr>ball_vx := 1 / 2 ^ 1020, ball_vy := 0\<rparr>\<rparr>)
     = Some NaN"
  unfolding predictedTarget64_def predictedY64_tiny
  by (subst reflectLoop64.simps) simp

lemma doubleFields_examples:
  "doubleFields ((init 600)\<lparr>ball := (newBall 600 150)\<lparr>ball_vx := 4, ball_vy := - 4\<rparr>\<rparr>)"
  "doubleFields ((init 600)\<lparr>ball := (newBall 600 150)\<lparr>ball_vx := 4,
      ball_vy := 1000000000000000000\<rparr>\<rparr>)"
  "doubleFields ((init 600)\<lparr>ball := (newBall 600 150)\<lparr>ball_vx := 1 / 2 ^ 1020, ball_vy := 0\<rparr>\<rparr>)"
proof -
  have big: "isDouble 1000000000000000000"
    using isDouble_times_pow2 [of 3814697265625 18] by simp
  have tiny: "isDouble (1 / 2 ^ 1020)"
    using isDouble_div_pow2 [of 1 1020] by simp
  show "doubleFields ((init 600)\<lparr>ball := (newBall 600 150)\<lparr>ball_vx := 4, ball_vy := - 4\<rparr>\<rparr>)"
    by (simp add: doubleFields_def init_600_fields isDouble_small_ints)
  show "doubleFields ((init 600)\<lparr>ball := (newBall 600 150)\<lparr>ball_vx := 4,
      ball_vy := 1000000000000000000\<rparr>\<rparr>)"
    by (simp add: doubleFields_def init_600_fields isDouble_small_ints big)
  show "doubleFields ((init 600)\<lparr>ball := (newBall 600 150)\<lparr>ball_vx := 1 / 2 ^ 1020, ball_vy := 0\<rparr>\<rparr>)"
    using tiny by (simp add: doubleFields_def init_600_fields isDouble_small_ints)
qed

text \<open>
  Claim C7 says that the mirror loop ends for every finite ball position and velocity with
  \<open>vx > 0\<close>, with a predicted \<open>y\<close> in \<open>[0, height]\<close>. On doubles it does not: for the ball
  at the centre of the 600 by 150 field with velocity \<open>(4, 10\<^sup>1\<^sup>8)\<close> the prediction is
  \<open>6.85 * 10\<^sup>1\<^sup>9\<close>, \<open>300 - 6.85 * 10\<^sup>1\<^sup>9\<close> rounds to \<open>-6.85 * 10\<^sup>1\<^sup>9\<close>, and the loop never
  ends; and with velocity \<open>(2\<^sup>-\<^sup>1\<^sup>0\<^sup>2\<^sup>0, 0)\<close> the prediction is NaN, which the loop hands on
  as the target.
\<close>

theorem C7_prediction_loop_on_doubles:
  "doubleFields ((init 600)\<lparr>ball := (newBall 600 150)\<lparr>ball_vx := 4,
      ball_vy := 1000000000000000000\<rparr>\<rparr>)
   \<and> 0 < ball_vx (ball ((init 600)\<lparr>ball := (newBall 600 150)\<lparr>ball_vx := 4,
      ball_vy := 1000000000000000000\<rparr>\<rparr>))
   \<and> predictedY64 ((init 600)\<lparr>ball := (newBall 600 150)\<lparr>ball_vx := 4,
      ball_vy := 1000000000000000000\<rparr>\<rparr>) = Finite 68500000000000000000
   \<and> predictedTarget64 ((init 600)\<lparr>ball := (newBall 600 150)\<lparr>ball_vx := 4,
      ball_vy := 1000000000000000000\<rparr>\<rparr>) = None
   \<and> doubleFields ((init 600)\<lparr>ball := (newBall 600 150)\<lparr>ball_vx := 1 / 2 ^ 1020, ball_vy := 0\<rparr>\<rparr>)
   \<and> 0 < ball_vx (ball ((init 600)\<lparr>ball := (newBall 600 150)\<lparr>ball_vx := 1 / 2 ^ 1020,
      ball_vy := 0\<rparr>\<rparr>))
   \<and> predictedTarget64 ((init 600)\<lparr>ball := (newBall 600 150)\<lparr>ball_vx := 1 / 2 ^ 1020,
      ball_vy := 0\<rparr>\<rparr>) = Some NaN"
proof -
  have "0 < ball_vx (ball ((init 600)\<lparr>ball := (newBall 600 150)\<lparr>ball_vx := 4,
      ball_vy := 1000000000000000000\<rparr>\<rparr>))"
    "0 < ball_vx (ball ((init 600)\<lparr>ball := (newBall 600 150)\<lparr>ball_vx := 1 / 2 ^ 1020,
      ball_vy := 0\<rparr>\<rparr>))"
    by simp_all
  then show ?thesis
    using doubleFields_examples(2,3) predictedY64_huge predictedTarget64_huge
      predictedTarget64_tiny
    by blast
qed

text \<open>
  Claim C7, amended. For a game whose numbers are doubles, a field height that is a positive
  integer below \<open>2\<^sup>5\<^sup>2\<close> (it is 150) and a ball with \<open>vx > 0\<close>: when the predicted \<open>y\<close>
  computed before the loop is finite and of magnitude below \<open>2\<^sup>5\<^sup>3\<close>, the mirror loop of
  \<^verbatim>\<open>updateAI\<close> ends on doubles, and the predicted \<open>y\<close> it leaves, before the random offset
  is added, lies in \<open>[0, height]\<close>; it is the value the loop on reals gives from the same
  prediction.
\<close>

theorem C7_prediction_in_field_for_bounded_doubles:
  assumes "doubleFields g"
    and "dim_height (dimensions g) \<in> \<int>" and "0 < dim_height (dimensions g)"
    and "dim_height (dimensions g) < 2 ^ 52"
    and "0 < ball_vx (ball g)"
    and "predictedY64 g = Finite p" and "\<bar>p\<bar> < 2 ^ 53"
  shows "\<exists>y. predictedTarget64 g = Some (Finite y) \<and> 0 \<le> y \<and> y \<le> dim_height (dimensions g)
    \<and> reflectLoop (dim_height (dimensions g)) p = Some y"
proof -
  obtain h :: int where h: "dim_height (dimensions g) = of_int h"
    using assms(2) by (auto elim: Ints_cases)
  have hpos: "0 < h"
    using assms(3) by (simp add: h)
  have "(of_int h :: real) < of_int (2 ^ 52)"
    using assms(4) by (simp add: h)
  then have hlt: "h < 2 ^ 52"
    by (simp only: of_int_less_iff)
  have d: "isDouble p"
    using assms(6) unfolding predictedY64_def Let_def by (rule dadd_Finite_isDouble)
  obtain n :: nat where "\<bar>p\<bar> / (2 * of_int h) \<le> real n"
    using real_arch_simple by blast
  then have "\<bar>p\<bar> \<le> 2 * of_int h * real n"
    using hpos by (simp add: field_simps)
  from loop64_agrees [OF hpos hlt d assms(7) this] obtain y where
    "reflectLoop64 (Finite (of_int h)) (Finite p) = Some (Finite y)"
    "reflectLoop (of_int h) p = Some y" "0 \<le> y" "y \<le> of_int h"
    by blast
  then have "predictedTarget64 g = Some (Finite y) \<and> 0 \<le> y \<and> y \<le> dim_height (dimensions g)
    \<and> reflectLoop (dim_height (dimensions g)) p = Some y"
    by (simp only: predictedTarget64_def assms(6) h simp_thms)
  then show ?thesis ..
qed

text \<open>The witness: the ball at the centre of the 600 by 150 field with velocity \<open>(4, -4)\<close>
  is predicted at \<open>-203\<close>, mirrored to 203 and then to 97, on doubles as on reals.\<close>

theorem C7_prediction_in_field_for_bounded_doubles_witness:
  "doubleFields ((init 600)\<lparr>ball := (newBall 600 150)\<lparr>ball_vx := 4, ball_vy := - 4\<rparr>\<rparr>)
   \<and> dim_height (dimensions ((init 600)\<lparr>ball := (newBall 600 150)\<lparr>ball_vx := 4, ball_vy := - 4\<rparr>\<rparr>))
       \<in> \<int>
   \<and> 0 < dim_height (dimensions ((init 600)\<lparr>ball := (newBall 600 150)\<lparr>ball_vx := 4,
       ball_vy := - 4\<rparr>\<rparr>))
   \<and> dim_height (dimensions ((init 600)\<lparr>ball := (newBall 600 150)\<lparr>ball_vx := 4,
       ball_vy := - 4\<rparr>\<rparr>)) < 2 ^ 52
   \<and> 0 < ball_vx (ball ((init 600)\<lparr>ball := (newBall 600 150)\<lparr>ball_vx := 4, ball_vy := - 4\<rparr>\<rparr>))
   \<and> predictedY64 ((init 600)\<lparr>ball := (newBall 600 150)\<lparr>ball_vx := 4, ball_vy := - 4\<rparr>\<rparr>)
       = Finite (- 203)
   \<and> \<bar>- 203 :: real\<bar> < 2 ^ 53
   \<and> predictedTarget64 ((init 600)\<lparr>ball := (newBall 600 150)\<lparr>ball_vx := 4, ball_vy := - 4\<rparr>\<rparr>)
       = Some (Finite 97)"
proof -
  define g where "g = (init 600)\<lparr>ball := (newBall 600 150)\<lparr>ball_vx := 4, ball_vy := - 4\<rparr>\<rparr>"
  have height: "dim_height (dimensions g) = 150"
    by (simp add: g_def init_600_fields)
  have h: "doubleFields g" "dim_height (dimensions g) \<in> \<int>" "0 < dim_height (dimensions g)"
    "dim_height (dimensions g) < 2 ^ 52" "0 < ball_vx (ball g)"
    "predictedY64 g = Finite (- 203)" "\<bar>- 203 :: real\<bar> < 2 ^ 53"
    using doubleFields_examples(1) predictedY64_ordinary
    by (simp_all add: height) (simp_all add: g_def)
  have "reflectLoop 150 (- 203) = reflectLoop 150 97"
    by (subst reflectLoop.simps) simp
  also have "\<dots> = Some 97"
    by (subst reflectLoop.simps) simp
  finally have real_loop: "reflectLoop 150 (- 203) = Some 97" .
  from C7_prediction_in_field_for_bounded_doubles [OF h]
  obtain y where "predictedTarget64 g = Some (Finite y)"
    "reflectLoop (dim_height (dimensions g)) (- 203) = Some y"
    by blast
  then have "predictedTarget64 g = Some (Finite 97)"
    using real_loop by (simp add: height)
  then show ?thesis
    using h unfolding g_def by blast
qed

end
